theory Spec2Isabelle
  imports Complex_Main
begin

text \<open>
  The polygon tesselator of deck.gl: the class \<open>PolygonTesselator\<close> and the functions of
  its module, which turn a list of polygons into flat buffers of indices, positions,
  next positions, colours and picking colours. Each function of the module is a function
  here under its own name; a loop threads its variables as a state, a typed array is a
  list of fixed length, and what a call does beyond returning (accessor calls, array
  allocation, writes to the caller's arrays) is part of the state.
\<close>

section \<open>Data model\<close>

text \<open>
  A point has two or three ordinates; a ring is a sequence of points; a polygon arrives
  either as one flat ring (a simple polygon) or as a list of rings (a complex polygon,
  ring 0 the exterior, the others holes).
\<close>

type_synonym 'n point = "'n \<times> 'n \<times> 'n option"

type_synonym 'n ring = "'n point list"

datatype 'n polygon = Simple "'n ring" | Complex "'n ring list"

text \<open>
  The errors: that of \<open>Polygon.normalize\<close>, and the \<open>Error\<close> \<open>calculateIndices\<close> throws
  (with the message "Vertex count exceeds browser's limit").
\<close>

datatype error = InvalidGeometryError | IndexOverflowError

section \<open>Array helpers\<close>

text \<open>
  \<open>xs.forEach((x, i) => ...)\<close> with the loop's variables threaded as a state: the
  callback gets the element, its index and the state.
\<close>

fun forEach_from :: "('a \<Rightarrow> nat \<Rightarrow> 's \<Rightarrow> 's) \<Rightarrow> nat \<Rightarrow> 'a list \<Rightarrow> 's \<Rightarrow> 's" where
  "forEach_from f k [] s = s"
| "forEach_from f k (x # xs) s = forEach_from f (Suc k) xs (f x k s)"

definition forEach :: "('a \<Rightarrow> nat \<Rightarrow> 's \<Rightarrow> 's) \<Rightarrow> 'a list \<Rightarrow> 's \<Rightarrow> 's" where
  "forEach f xs s = forEach_from f 0 xs s"

section \<open>The Polygon module\<close>

text \<open>
  The modules \<open>./polygon\<close> and \<open>experimental\<close> are not among the sources. The shape
  test \<open>Polygon.isSimple\<close> is the case distinction on the two constructors of a polygon,
  and \<open>count\<close> is \<open>length\<close>.
\<close>

text \<open>
  Modelled from the spec: \<open>Polygon.getVertexCount\<close> of \<open>./polygon\<close>, which is not among
  the sources. The vertex count of a polygon is the number of points of all its rings.
\<close>

fun Polygon_getVertexCount :: "'n polygon \<Rightarrow> nat" where
  "Polygon_getVertexCount (Simple r) = length r"
| "Polygon_getVertexCount (Complex rs) = foldl (\<lambda>n r. n + length r) 0 rs"

section \<open>Geometry counter\<close>

definition getPointCount :: "'n polygon list \<Rightarrow> nat" where
  "getPointCount polygons =
     foldl (\<lambda>points polygon. points + Polygon_getVertexCount polygon) 0 polygons"

text \<open>
  \<open>new Array(count(polygons) + 1)\<close> starts with holes; every entry is assigned before
  the function returns, so the holes are written as 0 here.
\<close>

definition getPolygonOffsets :: "'n polygon list \<Rightarrow> nat list" where
  "getPolygonOffsets polygons =
     fst (forEach
       (\<lambda>polygon i (offsets, offset).
          let offset' = offset + Polygon_getVertexCount polygon
          in (offsets[i + 1 := offset'], offset'))
       polygons
       ((replicate (length polygons + 1) 0)[0 := 0], 0))"


definition getTriangleCount :: "('n polygon \<Rightarrow> nat) \<Rightarrow> 'n polygon list \<Rightarrow> nat" where
  "getTriangleCount triangleCount polygons =
     foldl (\<lambda>triangles polygon. triangles + triangleCount polygon) 0 polygons"

section \<open>JavaScript values and typed arrays\<close>

text \<open>
  A value read from a colour: a finite number, one of the three non-finite numbers, or
  \<open>undefined\<close> (what reading a missing index gives).
\<close>

datatype jsval = Num real | NaN | PosInfinity | NegInfinity | Undefined

fun Number_isFinite :: "jsval \<Rightarrow> bool" where
  "Number_isFinite (Num r) = True"
| "Number_isFinite v = False"

text \<open>
  Modelled from the spec: \<open>get\<close> of \<open>experimental\<close>, which is not among the sources.
  It reads a container at an index; a missing index reads as \<open>undefined\<close>.
\<close>

definition get :: "jsval list \<Rightarrow> nat \<Rightarrow> jsval" where
  "get container index = (if index < length container then container ! index else Undefined)"

text \<open>
  \<open>array[index] = v\<close> on a JavaScript Array: an index beyond the end extends the array,
  the entries in between are holes and read as \<open>undefined\<close>.
\<close>

definition array_set :: "jsval list \<Rightarrow> nat \<Rightarrow> jsval \<Rightarrow> jsval list" where
  "array_set a index v =
     (if index < length a then a[index := v]
      else a @ replicate (index - length a) Undefined @ [v])"

text \<open>
  The conversion a \<open>Uint8ClampedArray\<close> applies to a stored value: \<open>NaN\<close> and
  \<open>undefined\<close> become 0, the value is clamped to 0..255 and rounded to the nearest
  integer, a tie to the even one.
\<close>

fun ToUint8Clamp :: "jsval \<Rightarrow> nat" where
  "ToUint8Clamp (Num r) =
     (if r \<le> 0 then 0
      else if 255 \<le> r then 255
      else let f = \<lfloor>r\<rfloor> in
        nat (if r < of_int f + 1 / 2 then f
             else if of_int f + 1 / 2 < r then f + 1
             else if even f then f else f + 1))"
| "ToUint8Clamp NaN = 0"
| "ToUint8Clamp PosInfinity = 255"
| "ToUint8Clamp NegInfinity = 0"
| "ToUint8Clamp Undefined = 0"

text \<open>
  Writing a run of values into a typed array from a start index on, one element after
  the other. A typed array has a fixed length: a write beyond its end is dropped, which
  is what \<open>list_update\<close> does.
\<close>

fun write_seq :: "'a list \<Rightarrow> nat \<Rightarrow> 'a list \<Rightarrow> 'a list" where
  "write_seq target start [] = target"
| "write_seq target start (v # vs) = write_seq (target[start := v]) (Suc start) vs"

text \<open>
  Modelled from the spec: \<open>fillArray\<close> of \<open>experimental\<close>, which is not among the
  sources. It broadcasts the source across \<open>count\<close> consecutive slots of the target,
  from index \<open>start\<close> on. Its targets here are \<open>Uint8ClampedArray\<close>s.
\<close>

definition fillArray :: "nat list \<Rightarrow> jsval list \<Rightarrow> nat \<Rightarrow> nat \<Rightarrow> nat list" where
  "fillArray target source start count =
     write_seq target start (map ToUint8Clamp (concat (replicate count source)))"



section \<open>Picking colours\<close>

definition getPickingColor :: "nat \<Rightarrow> jsval list" where
  "getPickingColor index =
     [Num (of_nat ((index + 1) mod 256)),
      Num (of_nat ((index + 1) div 256 mod 256)),
      Num (of_nat ((index + 1) div 256 div 256 mod 256))]"

definition calculatePickingColors :: "'n polygon list \<Rightarrow> nat \<Rightarrow> nat list" where
  "calculatePickingColors polygons pointCount =
     fst (forEach
       (\<lambda>complexPolygon polygonIndex (attribute, i).
          let color = getPickingColor polygonIndex;
              vertexCount = Polygon_getVertexCount complexPolygon
          in (fillArray attribute color i vertexCount, i + length color * vertexCount))
       polygons
       (replicate (pointCount * 3) 0, 0))"

section \<open>Colours\<close>

text \<open>
  What a colour accessor returns: a JavaScript Array, held by the caller and passed by
  reference (an address of the heap of the caller's arrays), or another container (a
  typed array, an object), which \<open>parseColor\<close> only reads.
\<close>

datatype color = JSArray nat | ArrayLike "jsval list"

type_synonym heap = "nat \<Rightarrow> jsval list"

text \<open>
  The array \<open>parseColor\<close> returns is the caller's own array when it was given one, so
  the assignment to index 3 shows in the heap; otherwise it is a new local array. The
  result is the heap and the contents of the returned array.
\<close>

definition alpha_or_255 :: "jsval list \<Rightarrow> jsval" where
  "alpha_or_255 a = (if Number_isFinite (get a 3) then get a 3 else Num 255)"

fun parseColor :: "heap \<Rightarrow> color \<Rightarrow> heap \<times> jsval list" where
  "parseColor h (JSArray r) =
     (let a = array_set (h r) 3 (alpha_or_255 (h r)) in (h(r := a), a))"
| "parseColor h (ArrayLike c) =
     (let a0 = [get c 0, get c 1, get c 2, get c 3];
          a = array_set a0 3 (alpha_or_255 a0)
      in (h, a))"

text \<open>
  \<open>DEFAULT_COLOR\<close> is an Array of the module, created when the module is loaded: it
  has an address of its own in the heap.
\<close>

definition DEFAULT_COLOR :: nat where
  "DEFAULT_COLOR = 0"

definition module_loaded :: "heap \<Rightarrow> bool" where
  "module_loaded h = (h DEFAULT_COLOR = [Num 0, Num 0, Num 0, Num 255])"

record color_state =
  cs_colors :: "nat list"
  cs_i :: nat
  cs_heap :: heap
  cs_getColorCalls :: "nat list"

text \<open>
  The colour pass. The state of the loop is the buffer, the write index, the heap of the
  caller's arrays and the arguments \<open>getColor\<close> has been called with so far.
\<close>

definition updateColors ::
  "nat list \<Rightarrow> heap \<Rightarrow> 'n polygon list \<Rightarrow> (nat \<Rightarrow> color) \<Rightarrow> color_state" where
  "updateColors colors h polygons getColor =
     forEach
       (\<lambda>complexPolygon polygonIndex s.
          let (h', color) = parseColor (cs_heap s) (getColor polygonIndex);
              vertexCount = Polygon_getVertexCount complexPolygon
          in \<lparr>cs_colors = fillArray (cs_colors s) color (cs_i s) vertexCount,
              cs_i = cs_i s + length color * vertexCount,
              cs_heap = h',
              cs_getColorCalls = cs_getColorCalls s @ [polygonIndex]\<rparr>)
       polygons
       \<lparr>cs_colors = colors, cs_i = 0, cs_heap = h, cs_getColorCalls = []\<rparr>"

section \<open>Positions\<close>

text \<open>
  Coordinates are numbers of a type \<open>'n\<close> with 0, + and -. \<open>Math.fround\<close> is a
  parameter, \<open>fround\<close>; a \<open>Float32Array\<close> applies the same rounding to every value
  stored in it.
\<close>

record 'n position_state =
  st_positions :: "'n list"
  st_positions64xyLow :: "'n list"
  st_nextPositions :: "'n list"
  st_nextPositions64xyLow :: "'n list"
  st_i :: nat
  st_j :: nat
  st_nextI :: nat
  st_nextJ :: nat
  st_startVertex :: "('n \<times> 'n \<times> 'n \<times> 'n \<times> 'n) option"
  st_getHeightCalls :: "nat list"

definition popStartVertex ::
  "('n \<Rightarrow> 'n) \<Rightarrow> bool \<Rightarrow> bool \<Rightarrow> 'n position_state \<Rightarrow> 'n position_state" where
  "popStartVertex fround extruded fp64 s =
     (case st_startVertex s of
        None \<Rightarrow> s
      | Some (x, y, z, xLow, yLow) \<Rightarrow>
          if extruded then
            let s1 = s\<lparr>st_nextPositions :=
                        write_seq (st_nextPositions s) (st_nextI s) [fround x, fround y, fround z],
                      st_nextI := st_nextI s + 3\<rparr>
            in if fp64 then
                 s1\<lparr>st_nextPositions64xyLow :=
                       write_seq (st_nextPositions64xyLow s1) (st_nextJ s1) [fround xLow, fround yLow],
                    st_nextJ := st_nextJ s1 + 2\<rparr>
               else s1
          else s)
     \<lparr>st_startVertex := None\<rparr>"

text \<open>
  The visitor of \<open>forEachVertex\<close> inside \<open>updatePositions\<close>. \<open>xLow\<close> and \<open>yLow\<close> are
  assigned and read under \<open>fp64\<close> only; they are bound to their \<open>fp64\<close> values here.
  A missing third ordinate reads as \<open>undefined\<close>, which \<open>|| 0\<close> turns into 0.
\<close>

definition visitVertex ::
  "('n::{zero,plus,minus} \<Rightarrow> 'n) \<Rightarrow> bool \<Rightarrow> bool \<Rightarrow> 'n \<Rightarrow> 'n point \<Rightarrow> nat
     \<Rightarrow> 'n position_state \<Rightarrow> 'n position_state" where
  "visitVertex fround extruded fp64 height vertex vertexIndex s =
     (let x = fst vertex;
          y = fst (snd vertex);
          z = (case snd (snd vertex) of Some v \<Rightarrow> v | None \<Rightarrow> 0) + height;
          xLow = x - fround x;
          yLow = y - fround y;
          s1 = s\<lparr>st_positions :=
                    write_seq (st_positions s) (st_i s) [fround x, fround y, fround z],
                  st_i := st_i s + 3\<rparr>;
          s2 = (if fp64 then
                  s1\<lparr>st_positions64xyLow :=
                        write_seq (st_positions64xyLow s1) (st_j s1) [fround xLow, fround yLow],
                     st_j := st_j s1 + 2\<rparr>
                else s1);
          s3 = (if extruded \<and> vertexIndex > 0 then
                  let t = s2\<lparr>st_nextPositions :=
                              write_seq (st_nextPositions s2) (st_nextI s2)
                                [fround x, fround y, fround z],
                            st_nextI := st_nextI s2 + 3\<rparr>
                  in if fp64 then
                       t\<lparr>st_nextPositions64xyLow :=
                            write_seq (st_nextPositions64xyLow t) (st_nextJ t)
                              [fround xLow, fround yLow],
                         st_nextJ := st_nextJ t + 2\<rparr>
                     else t
                else s2)
      in if vertexIndex = 0 then
           (popStartVertex fround extruded fp64 s3)\<lparr>st_startVertex := Some (x, y, z, xLow, yLow)\<rparr>
         else s3)"

fun forEachVertex ::
  "'n polygon \<Rightarrow> ('n point \<Rightarrow> nat \<Rightarrow> 's \<Rightarrow> 's) \<Rightarrow> 's \<Rightarrow> 's" where
  "forEachVertex (Simple polygon) visitor s = forEach visitor polygon s"
| "forEachVertex (Complex polygon) visitor s =
     forEach (\<lambda>simplePolygon k. forEach visitor simplePolygon) polygon s"

text \<open>
  The function \<open>updatePositions\<close> of the module, on the four buffers the class method
  hands it. The arguments \<open>getHeight\<close> has been called with are part of the state.
\<close>

definition updatePositions_buffers ::
  "('n::{zero,plus,minus} \<Rightarrow> 'n) \<Rightarrow> 'n list \<Rightarrow> 'n list \<Rightarrow> 'n list \<Rightarrow> 'n list
     \<Rightarrow> 'n polygon list \<Rightarrow> (nat \<Rightarrow> 'n) \<Rightarrow> bool \<Rightarrow> bool \<Rightarrow> 'n position_state" where
  "updatePositions_buffers fround positions positions64xyLow nextPositions nextPositions64xyLow
       polygons getHeight extruded fp64 =
     popStartVertex fround extruded fp64
       (forEach
          (\<lambda>polygon polygonIndex s.
             if extruded then
               forEachVertex polygon
                 (visitVertex fround extruded fp64 (getHeight polygonIndex))
                 (s\<lparr>st_getHeightCalls := st_getHeightCalls s @ [polygonIndex]\<rparr>)
             else forEachVertex polygon (visitVertex fround extruded fp64 0) s)
          polygons
          \<lparr>st_positions = positions, st_positions64xyLow = positions64xyLow,
           st_nextPositions = nextPositions, st_nextPositions64xyLow = nextPositions64xyLow,
           st_i = 0, st_j = 0, st_nextI = 0, st_nextJ = 0,
           st_startVertex = None, st_getHeightCalls = []\<rparr>)"

section \<open>Indices\<close>

text \<open>
  The sizes \<open>getHoleIndices\<close> adds up are \<open>count\<close> of the elements of its argument: the
  lengths of the rings of a complex polygon, the numbers of ordinates of the points of a
  flat ring.
\<close>

fun element_counts :: "'n polygon \<Rightarrow> nat list" where
  "element_counts (Simple ring) =
     map (\<lambda>vertex. case snd (snd vertex) of None \<Rightarrow> 2 | Some v \<Rightarrow> 3) ring"
| "element_counts (Complex rings) = map length rings"

definition getHoleIndices :: "'n polygon \<Rightarrow> nat list option" where
  "getHoleIndices complexPolygon =
     (if length (element_counts complexPolygon) > 1 then
        Some (butlast (snd (fold
          (\<lambda>c (polygonStartIndex, holeIndices).
             (polygonStartIndex + c, holeIndices @ [polygonStartIndex + c]))
          (element_counts complexPolygon) (0, []))))
      else None)"

text \<open>
  Modelled from the spec: \<open>flattenVertices\<close> of \<open>experimental\<close>, which is not among the
  sources. It appends the ordinates of the points of its argument to the result and pads
  a point of two ordinates with z = 0.
\<close>

fun flattenPoint :: "'n::zero point \<Rightarrow> 'n list" where
  "flattenPoint (x, y, z) = [x, y, (case z of Some v \<Rightarrow> v | None \<Rightarrow> 0)]"

definition flattenVertices :: "'n::zero ring \<Rightarrow> 'n list" where
  "flattenVertices ring = concat (map flattenPoint ring)"

text \<open>
  Every element of a polygon is a container (a ring, or a point of a flat ring), so
  \<open>flattenVertices2\<close> hands each one to \<open>flattenVertices\<close>; its branch for elements that
  are numbers is not taken.
\<close>

fun flattenVertices2 :: "'n::zero polygon \<Rightarrow> 'n list" where
  "flattenVertices2 (Simple ring) = concat (map flattenPoint ring)"
| "flattenVertices2 (Complex rings) = concat (map flattenVertices rings)"

text \<open>\<open>earcut\<close> is an external library: a parameter.\<close>

definition calculateSurfaceIndices ::
  "('n::zero list \<Rightarrow> nat list option \<Rightarrow> nat \<Rightarrow> nat list) \<Rightarrow> 'n polygon \<Rightarrow> nat list" where
  "calculateSurfaceIndices earcut complexPolygon =
     earcut (flattenVertices2 complexPolygon) (getHoleIndices complexPolygon) 3"

datatype IndexType = Uint16Array | Uint32Array

text \<open>The conversion an index array applies to a stored value: it wraps.\<close>

fun IndexType_store :: "IndexType \<Rightarrow> nat \<Rightarrow> nat" where
  "IndexType_store Uint16Array v = v mod 65536"
| "IndexType_store Uint32Array v = v mod 4294967296"

text \<open>
  What \<open>calculateIndices\<close> does beyond returning: \<open>new IndexType(indexCount)\<close> allocates
  an array (an array is known by its address, its place in the list of the arrays
  allocated so far), and \<open>earcut\<close> is called (with the polygons of these indices).
\<close>

record index_world =
  iw_arrays :: "nat list list"
  iw_earcutCalls :: "nat list"

text \<open>
  \<open>Polygon.getTriangleCount\<close> is not among the sources, and the spec gives no formula for
  it: it is the parameter \<open>triangleCount\<close>. The result is the address of the new array.
\<close>

definition calculateIndices ::
  "('n::zero polygon \<Rightarrow> nat) \<Rightarrow> ('n list \<Rightarrow> nat list option \<Rightarrow> nat \<Rightarrow> nat list)
     \<Rightarrow> 'n polygon list \<Rightarrow> IndexType \<Rightarrow> index_world \<Rightarrow> error + (nat \<times> index_world)" where
  "calculateIndices triangleCount earcut polygons indexType w =
     (let indexCount = 3 * getTriangleCount triangleCount polygons;
          offsets = getPolygonOffsets polygons
      in if indexType = Uint16Array \<and> indexCount > 65535 then Inl IndexOverflowError
         else
           let (attribute, i, calls) =
                 forEach
                   (\<lambda>polygon polygonIndex (attribute, i, calls).
                      let indices = calculateSurfaceIndices earcut polygon
                      in (write_seq attribute i
                            (map (\<lambda>index. IndexType_store indexType (index + offsets ! polygonIndex))
                               indices),
                          i + length indices,
                          calls @ [polygonIndex]))
                   polygons
                   (replicate indexCount 0, 0, iw_earcutCalls w)
           in Inr (length (iw_arrays w),
                   \<lparr>iw_arrays = iw_arrays w @ [attribute], iw_earcutCalls = calls\<rparr>))"

section \<open>The class PolygonTesselator\<close>

text \<open>
  Modelled from the spec: \<open>Polygon.normalize\<close> of \<open>./polygon\<close>, which is not among the
  sources. It returns a complex polygon, a single ring as \<open>[ring]\<close>, and fails with
  \<open>InvalidGeometryError\<close> if a ring has fewer than 3 points.
\<close>

fun Polygon_normalize :: "'n polygon \<Rightarrow> error + 'n polygon" where
  "Polygon_normalize (Simple ring) =
     (if length ring < 3 then Inl InvalidGeometryError else Inr (Complex [ring]))"
| "Polygon_normalize (Complex rings) =
     (if list_ex (\<lambda>ring. length ring < 3) rings then Inl InvalidGeometryError
      else Inr (Complex rings))"

text \<open>\<open>polygons.map(f)\<close> for an \<open>f\<close> that may throw: the first error ends the map.\<close>

fun map_result :: "('a \<Rightarrow> error + 'b) \<Rightarrow> 'a list \<Rightarrow> error + 'b list" where
  "map_result f [] = Inr []"
| "map_result f (x # xs) =
     (case f x of
        Inl e \<Rightarrow> Inl e
      | Inr y \<Rightarrow> (case map_result f xs of Inl e \<Rightarrow> Inl e | Inr ys \<Rightarrow> Inr (y # ys)))"

text \<open>An attribute that has not been assigned is \<open>undefined\<close>: \<open>None\<close>.\<close>

record 'n attributes =
  positions :: "'n list option"
  nextPositions :: "'n list option"
  positions64xyLow :: "'n list option"
  nextPositions64xyLow :: "'n list option"
  colors :: "nat list option"
  pickingColors :: "nat list"

record 'n PolygonTesselator =
  polygons :: "'n polygon list"
  pointCount :: nat
  attributes :: "'n attributes"

definition PolygonTesselator_new :: "'n polygon list \<Rightarrow> error + 'n PolygonTesselator" where
  "PolygonTesselator_new ps =
     (case map_result Polygon_normalize ps of
        Inl e \<Rightarrow> Inl e
      | Inr normalized \<Rightarrow>
          Inr \<lparr>polygons = normalized,
               pointCount = getPointCount normalized,
               attributes =
                 \<lparr>positions = None, nextPositions = None, positions64xyLow = None,
                  nextPositions64xyLow = None, colors = None,
                  pickingColors =
                    calculatePickingColors normalized (getPointCount normalized)\<rparr>\<rparr>)"

text \<open>\<open>attribute || new TypedArray(n)\<close>: the buffer there is, or a new one of zeros.\<close>

definition or_new :: "'a::zero list option \<Rightarrow> nat \<Rightarrow> 'a list" where
  "or_new attribute n = (case attribute of Some buffer \<Rightarrow> buffer | None \<Rightarrow> replicate n 0)"

text \<open>
  The method \<open>updatePositions\<close>. Without \<open>fp64\<close> the two low buffers are not allocated
  and the loop does not touch them: an absent one stays absent. The result is the
  tesselator and the arguments \<open>getHeight\<close> was called with.
\<close>

definition updatePositions ::
  "('n::{zero,plus,minus} \<Rightarrow> 'n) \<Rightarrow> 'n PolygonTesselator \<Rightarrow> bool \<Rightarrow> bool \<Rightarrow> (nat \<Rightarrow> 'n)
     \<Rightarrow> 'n PolygonTesselator \<times> nat list" where
  "updatePositions fround t fp64 extruded getHeight =
     (let a = attributes t;
          n = pointCount t;
          pos = or_new (positions a) (n * 3);
          nxt = or_new (nextPositions a) (n * 3);
          low = (if fp64 then Some (or_new (positions64xyLow a) (n * 2))
                 else positions64xyLow a);
          nextLow = (if fp64 then Some (or_new (nextPositions64xyLow a) (n * 2))
                     else nextPositions64xyLow a);
          s = updatePositions_buffers fround
                pos (case low of Some b \<Rightarrow> b | None \<Rightarrow> [])
                nxt (case nextLow of Some b \<Rightarrow> b | None \<Rightarrow> [])
                (polygons t) getHeight extruded fp64
      in (t\<lparr>attributes :=
              a\<lparr>positions := Some (st_positions s),
                nextPositions := Some (st_nextPositions s),
                positions64xyLow := map_option (\<lambda>b. st_positions64xyLow s) low,
                nextPositions64xyLow := map_option (\<lambda>b. st_nextPositions64xyLow s) nextLow\<rparr>\<rparr>,
          st_getHeightCalls s))"

text \<open>
  The method \<open>indices\<close> passes no index type: \<open>calculateIndices\<close> takes its default,
  \<open>Uint32Array\<close>.
\<close>

definition PolygonTesselator_indices ::
  "('n::zero polygon \<Rightarrow> nat) \<Rightarrow> ('n list \<Rightarrow> nat list option \<Rightarrow> nat \<Rightarrow> nat list)
     \<Rightarrow> 'n PolygonTesselator \<Rightarrow> index_world \<Rightarrow> error + (nat \<times> index_world)" where
  "PolygonTesselator_indices triangleCount earcut t w =
     calculateIndices triangleCount earcut (polygons t) Uint32Array w"

definition PolygonTesselator_vertexPositions :: "'n::zero PolygonTesselator \<Rightarrow> 'n list" where
  "PolygonTesselator_vertexPositions t = replicate (pointCount t * 2) 0"

definition PolygonTesselator_positions :: "'n PolygonTesselator \<Rightarrow> 'n list option" where
  "PolygonTesselator_positions t = positions (attributes t)"

definition PolygonTesselator_positions64xyLow :: "'n PolygonTesselator \<Rightarrow> 'n list option" where
  "PolygonTesselator_positions64xyLow t = positions64xyLow (attributes t)"

definition PolygonTesselator_nextPositions :: "'n PolygonTesselator \<Rightarrow> 'n list option" where
  "PolygonTesselator_nextPositions t = nextPositions (attributes t)"

definition PolygonTesselator_nextPositions64xyLow :: "'n PolygonTesselator \<Rightarrow> 'n list option" where
  "PolygonTesselator_nextPositions64xyLow t = nextPositions64xyLow (attributes t)"

text \<open>
  The method \<open>colors\<close>; without an accessor, \<open>getColor\<close> is \<open>x => DEFAULT_COLOR\<close>. The
  result is the tesselator and the final state of the colour pass, whose buffer is the
  value returned.
\<close>

definition PolygonTesselator_colors ::
  "'n PolygonTesselator \<Rightarrow> heap \<Rightarrow> (nat \<Rightarrow> color) option \<Rightarrow> 'n PolygonTesselator \<times> color_state" where
  "PolygonTesselator_colors t h getColor =
     (let a = attributes t;
          buffer = or_new (colors a) (pointCount t * 4);
          s = updateColors buffer h (polygons t)
                (case getColor of Some f \<Rightarrow> f | None \<Rightarrow> (\<lambda>x. JSArray DEFAULT_COLOR))
      in (t\<lparr>attributes := a\<lparr>colors := Some (cs_colors s)\<rparr>\<rparr>, s))"

definition PolygonTesselator_pickingColors :: "'n PolygonTesselator \<Rightarrow> nat list" where
  "PolygonTesselator_pickingColors t = pickingColors (attributes t)"

section \<open>Stand-ins for what is not among the sources\<close>

text \<open>
  Modelled from the spec: \<open>Polygon.getTriangleCount\<close> of \<open>./polygon\<close>, which is not among
  the sources. For a polygon of \<open>v\<close> vertices in \<open>numRings\<close> rings the spec's count is
  \<open>v - 2 * numRings + 2 * (numRings - 1)\<close>. It is used where a concrete triangle count is
  needed; \<open>calculateIndices\<close> itself takes the count as a parameter.
\<close>

definition Polygon_getTriangleCount :: "'n polygon \<Rightarrow> nat" where
  "Polygon_getTriangleCount polygon =
     (let v = int (Polygon_getVertexCount polygon);
          numRings = int (length (case polygon of Simple ring \<Rightarrow> [ring] | Complex rings \<Rightarrow> rings))
      in nat (v - 2 * numRings + 2 * (numRings - 1)))"

text \<open>
  A triangulator to run \<open>calculateIndices\<close> with where a concrete one is needed: the fan
  of a ring without holes, vertex 0 joined to every edge not at it.
\<close>

definition fan_earcut :: "'n list \<Rightarrow> nat list option \<Rightarrow> nat \<Rightarrow> nat list" where
  "fan_earcut verts holeIndices d =
     concat (map (\<lambda>k. [0, k + 1, k + 2]) [0..<length verts div d - 2])"

section \<open>Vertex slots\<close>

text \<open>
  The vocabulary of the properties below. The rings of a polygon in the order
  \<open>forEachVertex\<close> walks them, and its vertices in that order; vertex \<open>k\<close> of polygon \<open>i\<close>
  has the global slot \<open>offsets[i] + k\<close>, and a buffer with \<open>n\<close> entries per vertex
  holds those of slot \<open>g\<close> from index \<open>n * g\<close> on.
\<close>

fun rings_of :: "'n polygon \<Rightarrow> 'n ring list" where
  "rings_of (Simple ring) = [ring]"
| "rings_of (Complex rings) = rings"

definition vertices_of :: "'n polygon \<Rightarrow> 'n point list" where
  "vertices_of polygon = concat (rings_of polygon)"

definition slot :: "nat \<Rightarrow> 'a list \<Rightarrow> nat \<Rightarrow> 'a list" where
  "slot n buffer g = take n (drop (n * g) buffer)"

section \<open>Vocabulary of the proofs\<close>

text \<open>The polygon index and the vertex of every slot, in slot order.\<close>

definition vertex_slots :: "'n polygon list \<Rightarrow> (nat \<times> 'n point) list" where
  "vertex_slots ps = concat (map (\<lambda>(i, p). map (Pair i) (vertices_of p)) (enumerate 0 ps))"

text \<open>The contents of the array \<open>calculateIndices\<close> fills, as a function of its arguments alone.\<close>

definition index_buffer ::
  "('n::zero polygon \<Rightarrow> nat) \<Rightarrow> ('n list \<Rightarrow> nat list option \<Rightarrow> nat \<Rightarrow> nat list)
     \<Rightarrow> 'n polygon list \<Rightarrow> IndexType \<Rightarrow> nat list" where
  "index_buffer triangleCount earcut ps indexType =
     fst (forEach
       (\<lambda>polygon polygonIndex (attribute, i, calls).
          let indices = calculateSurfaceIndices earcut polygon
          in (write_seq attribute i
                (map (\<lambda>index. IndexType_store indexType
                         (index + getPolygonOffsets ps ! polygonIndex)) indices),
              i + length indices,
              calls @ [polygonIndex]))
       ps
       (replicate (3 * getTriangleCount triangleCount ps) 0, 0, []))"

definition buffer_lengths :: "'n position_state \<Rightarrow> nat \<times> nat \<times> nat \<times> nat" where
  "buffer_lengths s =
     (length (st_positions s), length (st_positions64xyLow s),
      length (st_nextPositions s), length (st_nextPositions64xyLow s))"

text \<open>A colour with its alpha completed, as \<open>parseColor\<close> leaves it.\<close>

definition with_alpha :: "jsval list \<Rightarrow> jsval list" where
  "with_alpha a = array_set a 3 (alpha_or_255 a)"

text \<open>The channels a colour holds, and whether an Array has no more than four.\<close>

fun channels :: "heap \<Rightarrow> color \<Rightarrow> jsval list" where
  "channels h (JSArray r) = h r"
| "channels h (ArrayLike c) = c"

fun fits_rgba :: "heap \<Rightarrow> color \<Rightarrow> bool" where
  "fits_rgba h (JSArray r) = (length (h r) \<le> 4)"
| "fits_rgba h (ArrayLike c) = True"

text \<open>The array \<open>parseColor\<close> returns for a colour, given the heap.\<close>

definition parsed :: "heap \<Rightarrow> color \<Rightarrow> jsval list" where
  "parsed h c = snd (parseColor h c)"

text \<open>
  During a colour pass every array of the heap is as it was at the start or has had its
  alpha completed; either way \<open>parseColor\<close> returns what it would have returned then.
\<close>

definition heap_inv :: "heap \<Rightarrow> heap \<Rightarrow> bool" where
  "heap_inv h0 h = (\<forall>r. h r = h0 r \<or> h r = with_alpha (h0 r))"

text \<open>One round of the loop of \<open>updateColors\<close>.\<close>

definition color_step ::
  "(nat \<Rightarrow> color) \<Rightarrow> 'n polygon \<Rightarrow> nat \<Rightarrow> color_state \<Rightarrow> color_state" where
  "color_step getColor =
     (\<lambda>complexPolygon polygonIndex s.
          let (h', color) = parseColor (cs_heap s) (getColor polygonIndex);
              vertexCount = Polygon_getVertexCount complexPolygon
          in \<lparr>cs_colors = fillArray (cs_colors s) color (cs_i s) vertexCount,
              cs_i = cs_i s + length color * vertexCount,
              cs_heap = h',
              cs_getColorCalls = cs_getColorCalls s @ [polygonIndex]\<rparr>)"

definition color_block :: "heap \<Rightarrow> (nat \<Rightarrow> color) \<Rightarrow> 'n polygon \<Rightarrow> nat \<Rightarrow> nat list" where
  "color_block h0 getColor p k =
     concat (map (\<lambda>v. map ToUint8Clamp (parsed h0 (getColor k))) (vertices_of p))"

text \<open>
  What holds of a tesselator from its construction on: the vertex count is that of its
  polygons, and a buffer that exists has the length that count gives it.
\<close>

definition consistent :: "'n PolygonTesselator \<Rightarrow> bool" where
  "consistent t =
     (pointCount t = getPointCount (polygons t) \<and>
      (case positions (attributes t) of None \<Rightarrow> True
       | Some b \<Rightarrow> length b = pointCount t * 3) \<and>
      (case nextPositions (attributes t) of None \<Rightarrow> True
       | Some b \<Rightarrow> length b = pointCount t * 3) \<and>
      (case positions64xyLow (attributes t) of None \<Rightarrow> True
       | Some b \<Rightarrow> length b = pointCount t * 2) \<and>
      (case nextPositions64xyLow (attributes t) of None \<Rightarrow> True
       | Some b \<Rightarrow> length b = pointCount t * 2) \<and>
      (case colors (attributes t) of None \<Rightarrow> True
       | Some b \<Rightarrow> length b = pointCount t * 4))"

text \<open>The three entries \<open>updatePositions\<close> writes for a vertex of a polygon of a given height.\<close>

definition position_of :: "('n::{zero,plus,minus} \<Rightarrow> 'n) \<Rightarrow> 'n \<Rightarrow> 'n point \<Rightarrow> 'n list" where
  "position_of fround height vertex =
     [fround (fst vertex), fround (fst (snd vertex)),
      fround ((case snd (snd vertex) of Some v \<Rightarrow> v | None \<Rightarrow> 0) + height)]"

text \<open>One round of the loop of \<open>updatePositions\<close> over the polygons, and the height it uses.\<close>

definition position_step ::
  "('n::{zero,plus,minus} \<Rightarrow> 'n) \<Rightarrow> (nat \<Rightarrow> 'n) \<Rightarrow> bool \<Rightarrow> bool
     \<Rightarrow> 'n polygon \<Rightarrow> nat \<Rightarrow> 'n position_state \<Rightarrow> 'n position_state" where
  "position_step fround getHeight extruded fp64 =
     (\<lambda>polygon polygonIndex s.
             if extruded then
               forEachVertex polygon
                 (visitVertex fround extruded fp64 (getHeight polygonIndex))
                 (s\<lparr>st_getHeightCalls := st_getHeightCalls s @ [polygonIndex]\<rparr>)
             else forEachVertex polygon (visitVertex fround extruded fp64 0) s)"

definition height_of :: "bool \<Rightarrow> (nat \<Rightarrow> 'n::zero) \<Rightarrow> nat \<Rightarrow> 'n" where
  "height_of extruded getHeight polygonIndex = (if extruded then getHeight polygonIndex else 0)"

definition position_block ::
  "('n::{zero,plus,minus} \<Rightarrow> 'n) \<Rightarrow> (nat \<Rightarrow> 'n) \<Rightarrow> bool \<Rightarrow> 'n polygon \<Rightarrow> nat \<Rightarrow> 'n list" where
  "position_block fround getHeight extruded p k =
     concat (map (position_of fround (height_of extruded getHeight k)) (vertices_of p))"

text \<open>
  With extrusion on, the first vertex of a ring is written to \<open>nextPositions\<close> late, by
  \<open>popStartVertex\<close> at the start of the next ring or at the end. The buffer with that
  pending write done, and the write index after it:
\<close>

definition pending :: "('n \<Rightarrow> 'n) \<Rightarrow> 'n position_state \<Rightarrow> 'n list" where
  "pending fround s =
     (case st_startVertex s of None \<Rightarrow> []
      | Some (x, y, z, xLow, yLow) \<Rightarrow> [fround x, fround y, fround z])"

definition next_done :: "('n \<Rightarrow> 'n) \<Rightarrow> 'n position_state \<Rightarrow> 'n list" where
  "next_done fround s = write_seq (st_nextPositions s) (st_nextI s) (pending fround s)"

definition next_ix :: "('n \<Rightarrow> 'n) \<Rightarrow> 'n position_state \<Rightarrow> nat" where
  "next_ix fround s = st_nextI s + length (pending fround s)"

text \<open>The vertex after each vertex of a polygon along its ring, in slot order.\<close>

definition next_vertices :: "'n polygon \<Rightarrow> 'n point list" where
  "next_vertices polygon = concat (map rotate1 (rings_of polygon))"

definition next_slots :: "'n polygon list \<Rightarrow> (nat \<times> 'n point) list" where
  "next_slots ps = concat (map (\<lambda>(i, p). map (Pair i) (next_vertices p)) (enumerate 0 ps))"

definition next_block ::
  "('n::{zero,plus,minus} \<Rightarrow> 'n) \<Rightarrow> (nat \<Rightarrow> 'n) \<Rightarrow> 'n polygon \<Rightarrow> nat \<Rightarrow> 'n list" where
  "next_block fround getHeight p k =
     concat (map (position_of fround (getHeight k)) (next_vertices p))"


section \<open>Sequences of writes\<close>

lemma foldl_add_sum_list:
  "foldl (\<lambda>a x. a + f x) (k::nat) xs = k + sum_list (map f xs)"
  by (induction xs arbitrary: k) simp_all

lemma getPointCount_sum:
  "getPointCount ps = sum_list (map Polygon_getVertexCount ps)"
  by (simp add: getPointCount_def foldl_add_sum_list)

lemma length_write_seq [simp]: "length (write_seq t i vs) = length t"
  by (induction vs arbitrary: t i) simp_all

lemma write_seq_append:
  "write_seq t i (vs @ ws) = write_seq (write_seq t i vs) (i + length vs) ws"
  by (induction vs arbitrary: t i) simp_all

lemma write_seq_nth_before: "m < i \<Longrightarrow> write_seq t i vs ! m = t ! m"
  by (induction vs arbitrary: t i) simp_all

lemma write_seq_nth_in:
  "k < length vs \<Longrightarrow> i + k < length t \<Longrightarrow> write_seq t i vs ! (i + k) = vs ! k"
proof (induction vs arbitrary: t i k)
  case Nil
  then show ?case by simp
next
  case (Cons v vs)
  show ?case
  proof (cases k)
    case 0
    with Cons.prems show ?thesis by (simp add: write_seq_nth_before)
  next
    case (Suc k')
    with Cons.prems have "write_seq (t[i := v]) (Suc i) vs ! (Suc i + k') = vs ! k'"
      by (intro Cons.IH) simp_all
    with Suc show ?thesis by simp
  qed
qed

lemma write_seq_whole:
  "length vs = length t \<Longrightarrow> write_seq t 0 vs = vs"
  by (rule nth_equalityI) (simp_all add: write_seq_nth_in [where i = 0, simplified])

section \<open>The offsets table\<close>

lemma offsets_loop:
  assumes step: "\<And>p i offs off. step p i (offs, off) = (offs[Suc i := off + vc p], off + vc p)"
  shows "length offs = Suc (k + length ps) \<Longrightarrow> m \<le> k + length ps \<Longrightarrow>
   fst (forEach_from step k ps (offs, off)) ! m =
     (if m \<le> k then offs ! m else off + sum_list (map vc (take (m - k) ps)))"
proof (induction ps arbitrary: k offs off)
  case Nil
  then show ?case by simp
next
  case (Cons p ps)
  have len: "length (offs[Suc k := off + vc p]) = Suc (Suc k + length ps)"
    using Cons.prems by simp
  have bound: "m \<le> Suc k + length ps"
    using Cons.prems by simp
  have "fst (forEach_from step k (p # ps) (offs, off)) ! m =
        fst (forEach_from step (Suc k) ps (offs[Suc k := off + vc p], off + vc p)) ! m"
    by (simp add: step)
  also have "\<dots> = (if m \<le> Suc k then (offs[Suc k := off + vc p]) ! m
                   else off + vc p + sum_list (map vc (take (m - Suc k) ps)))"
    by (rule Cons.IH [OF len bound])
  also have "\<dots> = (if m \<le> k then offs ! m
                   else off + sum_list (map vc (take (m - k) (p # ps))))"
    using Cons.prems
    by (cases "m \<le> k"; cases "m = Suc k") (auto simp: take_Cons' Suc_diff_le add.assoc)
  finally show ?case .
qed

lemma offsets_loop_length:
  assumes step: "\<And>p i offs off. step p i (offs, off) = (offs[Suc i := off + vc p], off + vc p)"
  shows "length (fst (forEach_from step k ps (offs, off))) = length offs"
  by (induction ps arbitrary: k offs off) (simp_all add: step)

lemma length_getPolygonOffsets: "length (getPolygonOffsets ps) = length ps + 1"
  unfolding getPolygonOffsets_def forEach_def
  by (subst offsets_loop_length [where vc = Polygon_getVertexCount]) (simp_all add: Let_def)

lemma getPolygonOffsets_nth:
  "m \<le> length ps \<Longrightarrow>
   getPolygonOffsets ps ! m = sum_list (map Polygon_getVertexCount (take m ps))"
  unfolding getPolygonOffsets_def forEach_def
  by (subst offsets_loop [where vc = Polygon_getVertexCount]) (auto simp: Let_def)

lemma vertexCount_vertices: "Polygon_getVertexCount p = length (vertices_of p)"
  by (cases p) (simp_all add: vertices_of_def foldl_add_sum_list length_concat)

lemma getPolygonOffsets_sorted: "sorted (getPolygonOffsets ps)"
proof -
  have "getPolygonOffsets ps ! i \<le> getPolygonOffsets ps ! Suc i"
    if "Suc i < length (getPolygonOffsets ps)" for i
  proof -
    from that have i: "i < length ps" by (simp add: length_getPolygonOffsets)
    then show ?thesis
      by (simp add: getPolygonOffsets_nth take_Suc_conv_app_nth)
  qed
  then show ?thesis by (simp add: sorted_iff_nth_Suc)
qed

text \<open>
  C5: the offsets table of \<open>n\<close> polygons has \<open>n + 1\<close> entries, starts at 0, grows from
  each entry to the next by the vertex count of that polygon, is non-decreasing, and
  ends at the total vertex count, the sum of the vertex counts of the polygons.
\<close>

theorem offsets_table:
  "length (getPolygonOffsets ps) = length ps + 1 \<and>
   getPolygonOffsets ps ! 0 = 0 \<and>
   (\<forall>i < length ps.
      getPolygonOffsets ps ! (i + 1) = getPolygonOffsets ps ! i + Polygon_getVertexCount (ps ! i) \<and>
      getPolygonOffsets ps ! (i + 1) - getPolygonOffsets ps ! i = Polygon_getVertexCount (ps ! i)) \<and>
   sorted (getPolygonOffsets ps) \<and>
   getPolygonOffsets ps ! length ps = getPointCount ps \<and>
   getPointCount ps = sum_list (map Polygon_getVertexCount ps)"
proof -
  have step: "getPolygonOffsets ps ! (i + 1) =
              getPolygonOffsets ps ! i + Polygon_getVertexCount (ps ! i)"
    if "i < length ps" for i
    using that by (simp add: getPolygonOffsets_nth take_Suc_conv_app_nth)
  have "getPolygonOffsets ps ! 0 = 0"
    by (simp add: getPolygonOffsets_nth)
  moreover have "getPolygonOffsets ps ! length ps = getPointCount ps"
    by (simp add: getPolygonOffsets_nth getPointCount_sum)
  ultimately show ?thesis
    using step by (simp add: length_getPolygonOffsets getPolygonOffsets_sorted getPointCount_sum)
qed

theorem offsets_table_witness:
  "getPolygonOffsets
     [Simple [(0, 0, None), (1, 0, None), (0, 1, None)],
      Complex [[(0, 0, None), (4, 0, None), (4, 4, None), (0::int, 4, Some 1)],
               [(1, 1, None), (2, 1, None), (1, 2, None)]],
      Complex []] = [0, 3, 10, 10] \<and>
   getPointCount
     [Simple [(0, 0, None), (1, 0, None), (0, 1, None)],
      Complex [[(0, 0, None), (4, 0, None), (4, 4, None), (0::int, 4, Some 1)],
               [(1, 1, None), (2, 1, None), (1, 2, None)]],
      Complex []] = 10"
  using offsets_table
    [of "[Simple [(0, 0, None), (1, 0, None), (0, 1, None)],
      Complex [[(0, 0, None), (4, 0, None), (4, 4, None), (0::int, 4, Some 1)],
               [(1, 1, None), (2, 1, None), (1, 2, None)]],
      Complex []]"]
  by (simp add: getPolygonOffsets_def getPointCount_def forEach_def)

section \<open>Loops that fill a buffer\<close>

lemma forEach_from_writes:
  assumes inv: "\<And>x k s. I s \<Longrightarrow> I (step x k s)"
    and wr: "\<And>x k s. I s \<Longrightarrow> wr (step x k s) = write_seq (wr s) (ix s) (blk x k)"
    and ix: "\<And>x k s. I s \<Longrightarrow> ix (step x k s) = ix s + length (blk x k)"
  shows "I s \<Longrightarrow>
     I (forEach_from step k xs s) \<and>
     wr (forEach_from step k xs s) =
       write_seq (wr s) (ix s) (concat (map (\<lambda>(i, x). blk x i) (enumerate k xs))) \<and>
     ix (forEach_from step k xs s) =
       ix s + length (concat (map (\<lambda>(i, x). blk x i) (enumerate k xs)))"
proof (induction xs arbitrary: k s)
  case Nil
  then show ?case by simp
next
  case (Cons x xs)
  from Cons.prems have "I (step x k s)" by (rule inv)
  from Cons.IH [OF this, of "Suc k"] Cons.prems show ?case
    by (simp add: wr ix write_seq_append add.assoc)
qed

lemma nth_concat_block:
  "i < length bs \<Longrightarrow> k < length (bs ! i) \<Longrightarrow>
   concat bs ! (sum_list (map length (take i bs)) + k) = bs ! i ! k"
proof (induction bs arbitrary: i)
  case Nil
  then show ?case by simp
next
  case (Cons b bs)
  then show ?case
    by (cases i) (simp_all add: nth_append add.assoc)
qed

lemma slot_concat_uniform:
  "\<forall>x \<in> set xs. length (f x) = n \<Longrightarrow> g < length xs \<Longrightarrow>
   slot n (concat (map f xs)) g = f (xs ! g)"
proof (induction xs arbitrary: g)
  case Nil
  then show ?case by simp
next
  case (Cons x xs)
  show ?case
  proof (cases g)
    case 0
    with Cons.prems show ?thesis by (simp add: slot_def)
  next
    case (Suc g')
    with Cons.prems have "slot n (concat (map f xs)) g' = f (xs ! g')"
      by (intro Cons.IH) simp_all
    with Suc Cons.prems show ?thesis by (simp add: slot_def)
  qed
qed

lemma vertex_block_lengths:
  "map length (map (\<lambda>(i, p). map (Pair i) (vertices_of p)) (enumerate k ps)) =
   map Polygon_getVertexCount ps"
  by (induction ps arbitrary: k) (simp_all add: vertexCount_vertices)

lemma vertex_slots_nth:
  assumes "i < length ps" and "k < Polygon_getVertexCount (ps ! i)"
  shows "vertex_slots ps ! (getPolygonOffsets ps ! i + k) = (i, vertices_of (ps ! i) ! k)"
    and "getPolygonOffsets ps ! i + k < length (vertex_slots ps)"
proof -
  let ?bs = "map (\<lambda>(i, p). map (Pair i) (vertices_of p)) (enumerate 0 ps)"
  have lens: "map length ?bs = map Polygon_getVertexCount ps"
    by (rule vertex_block_lengths)
  have bi: "?bs ! i = map (Pair i) (vertices_of (ps ! i))"
    using assms by (simp add: nth_enumerate_eq)
  have off: "getPolygonOffsets ps ! i = sum_list (map length (take i ?bs))"
    using assms by (simp only: take_map [symmetric] lens) (simp add: getPolygonOffsets_nth take_map)
  have "concat ?bs ! (sum_list (map length (take i ?bs)) + k) = ?bs ! i ! k"
    using assms by (intro nth_concat_block) (simp_all add: bi vertexCount_vertices)
  then show "vertex_slots ps ! (getPolygonOffsets ps ! i + k) = (i, vertices_of (ps ! i) ! k)"
    using assms by (simp add: vertex_slots_def off bi vertexCount_vertices)
  have "length (vertex_slots ps) = getPolygonOffsets ps ! length ps"
    by (simp only: vertex_slots_def length_concat lens) (simp add: getPolygonOffsets_nth)
  moreover have "getPolygonOffsets ps ! i + k < getPolygonOffsets ps ! Suc i"
    using assms by (simp add: getPolygonOffsets_nth take_Suc_conv_app_nth)
  moreover have "getPolygonOffsets ps ! Suc i \<le> getPolygonOffsets ps ! length ps"
    using assms getPolygonOffsets_sorted [of ps]
    by (intro sorted_nth_mono) (simp_all add: length_getPolygonOffsets)
  ultimately show "getPolygonOffsets ps ! i + k < length (vertex_slots ps)"
    by simp
qed

lemma length_vertex_slots: "length (vertex_slots ps) = getPointCount ps"
proof -
  show ?thesis
    by (simp only: vertex_slots_def length_concat vertex_block_lengths getPointCount_sum)
qed

lemma concat_blocks_vertex_slots:
  "concat (map (\<lambda>(i, p). concat (map (f i) (vertices_of p))) (enumerate k ps)) =
   concat (map (\<lambda>(i, v). f i v)
     (concat (map (\<lambda>(i, p). map (Pair i) (vertices_of p)) (enumerate k ps))))"
  by (induction ps arbitrary: k) (simp_all add: o_def)

section \<open>The picking-colour buffer\<close>

lemma length_concat_replicate: "length (concat (replicate n xs)) = n * length xs"
  by (induction n) simp_all

lemma ToUint8Clamp_of_nat: "m \<le> 255 \<Longrightarrow> ToUint8Clamp (Num (of_nat m)) = m"
  by (cases "m = 0") (simp_all add: Let_def)

lemma picking_bytes:
  "map ToUint8Clamp (getPickingColor i) =
     [(i + 1) mod 256, (i + 1) div 256 mod 256, (i + 1) div 256 div 256 mod 256]"
proof -
  have "m mod 256 \<le> 255" for m :: nat
    using mod_less_divisor [of 256 m] by linarith
  then show ?thesis
    unfolding getPickingColor_def by (simp only: list.map ToUint8Clamp_of_nat)
qed

lemma calculatePickingColors_flat:
  "calculatePickingColors ps (getPointCount ps) =
     concat (map (\<lambda>(i, v). map ToUint8Clamp (getPickingColor i)) (vertex_slots ps))"
proof -
  define blk :: "'a polygon \<Rightarrow> nat \<Rightarrow> nat list" where
    "blk p i = concat (map (\<lambda>v. map ToUint8Clamp (getPickingColor i)) (vertices_of p))" for p i
  define step :: "'a polygon \<Rightarrow> nat \<Rightarrow> nat list \<times> nat \<Rightarrow> nat list \<times> nat" where
    "step = (\<lambda>complexPolygon polygonIndex (attribute, i).
          let color = getPickingColor polygonIndex;
              vertexCount = Polygon_getVertexCount complexPolygon
          in (fillArray attribute color i vertexCount, i + length color * vertexCount))"
  have blk_eq: "map ToUint8Clamp (concat (replicate (Polygon_getVertexCount p) (getPickingColor i))) = blk p i"
    for p :: "'a polygon" and i
    by (simp add: blk_def vertexCount_vertices map_concat map_replicate_const)
  have len: "length (blk p i) = length (getPickingColor i) * Polygon_getVertexCount p"
    for p :: "'a polygon" and i
    unfolding blk_eq [symmetric] by (simp add: length_concat_replicate)
  have wr: "fst (step p k s) = write_seq (fst s) (snd s) (blk p k)" for p k s
    by (cases s) (simp add: step_def Let_def fillArray_def blk_eq)
  have ix: "snd (step p k s) = snd s + length (blk p k)" for p k s
    by (cases s) (simp add: step_def Let_def len)
  let ?ws = "concat (map (\<lambda>(i, p). blk p i) (enumerate 0 ps))"
  have ws: "?ws = concat (map (\<lambda>(i, v). map ToUint8Clamp (getPickingColor i)) (vertex_slots ps))"
    unfolding blk_def vertex_slots_def by (rule concat_blocks_vertex_slots)
  have "length ?ws = getPointCount ps * 3"
    unfolding ws
    by (simp add: length_concat o_def case_prod_unfold picking_bytes sum_list_triv
        length_vertex_slots)
  then have "write_seq (replicate (getPointCount ps * 3) 0) 0 ?ws = ?ws"
    by (intro write_seq_whole) simp
  moreover have "fst (forEach_from step 0 ps (replicate (getPointCount ps * 3) 0, 0)) =
      write_seq (replicate (getPointCount ps * 3) 0) 0 ?ws"
    using forEach_from_writes [of "\<lambda>s. True" step fst snd blk "(replicate (getPointCount ps * 3) 0, 0)" 0 ps]
    by (simp add: wr ix)
  ultimately show ?thesis
    by (simp add: calculatePickingColors_def forEach_def ws flip: step_def)
qed

lemma pickingColors_slot:
  assumes "i < length ps" and "k < Polygon_getVertexCount (ps ! i)"
  shows "slot 3 (calculatePickingColors ps (getPointCount ps)) (getPolygonOffsets ps ! i + k) =
     [(i + 1) mod 256, (i + 1) div 256 mod 256, (i + 1) div 256 div 256 mod 256]"
proof -
  have "slot 3 (concat (map (\<lambda>(i, v). map ToUint8Clamp (getPickingColor i)) (vertex_slots ps)))
          (getPolygonOffsets ps ! i + k) =
        (\<lambda>(i, v). map ToUint8Clamp (getPickingColor i))
          (vertex_slots ps ! (getPolygonOffsets ps ! i + k))"
    by (rule slot_concat_uniform) (auto simp: picking_bytes vertex_slots_nth(2) [OF assms])
  then show ?thesis
    by (simp add: calculatePickingColors_flat vertex_slots_nth(1) [OF assms] picking_bytes)
qed

lemma picking_decode:
  fixes i :: nat
  assumes "i + 1 < 16777216"
  shows "(i + 1) mod 256 + (i + 1) div 256 mod 256 * 256 + (i + 1) div 256 div 256 mod 256 * 65536 = i + 1"
proof -
  define m where "m = i + 1"
  have "m < 256 * 256 * 256" using assms by (simp add: m_def)
  then have "m div 256 div 256 < 256"
    by (simp add: div_mult2_eq [symmetric] less_mult_imp_div_less)
  then have "m div 256 div 256 mod 256 = m div 256 div 256" by simp
  moreover have "m = m mod 256 + 256 * (m div 256)" by simp
  moreover have "m div 256 = m div 256 mod 256 + 256 * (m div 256 div 256)" by simp
  ultimately show ?thesis unfolding m_def [symmetric] by linarith
qed

text \<open>
  C2 (as amended): every vertex slot of polygon \<open>i\<close> in the picking-colour buffer holds
  the three bytes \<open>(i + 1) mod 256\<close>, \<open>(i + 1) div 256 mod 256\<close> and
  \<open>(i + 1) div 65536 mod 256\<close>; when \<open>i + 1 < 2^24\<close>, decoding
  \<open>r + g * 256 + b * 65536 - 1\<close> gives \<open>i\<close> back and the bytes are not \<open>(0, 0, 0)\<close>.
\<close>

theorem picking_color_slots:
  assumes "i < length ps" and "k < Polygon_getVertexCount (ps ! i)"
  shows "slot 3 (calculatePickingColors ps (getPointCount ps)) (getPolygonOffsets ps ! i + k) =
           [(i + 1) mod 256, (i + 1) div 256 mod 256, (i + 1) div 65536 mod 256] \<and>
         (i + 1 < 16777216 \<longrightarrow>
            int ((i + 1) mod 256) + int ((i + 1) div 256 mod 256) * 256 +
              int ((i + 1) div 65536 mod 256) * 65536 - 1 = int i \<and>
            [(i + 1) mod 256, (i + 1) div 256 mod 256, (i + 1) div 65536 mod 256] \<noteq> [0, 0, 0])"
proof -
  have d: "(i + 1) div 65536 = (i + 1) div 256 div 256"
    by (simp add: div_mult2_eq [symmetric])
  have dec: "int ((i + 1) mod 256) + int ((i + 1) div 256 mod 256) * 256 +
              int ((i + 1) div 65536 mod 256) * 65536 - 1 = int i"
    and nz: "[(i + 1) mod 256, (i + 1) div 256 mod 256, (i + 1) div 65536 mod 256] \<noteq> [0, 0, 0]"
    if "i + 1 < 16777216"
  proof -
    from picking_decode [OF that]
    have e: "(i + 1) mod 256 + (i + 1) div 256 mod 256 * 256 +
             (i + 1) div 65536 mod 256 * 65536 = i + 1"
      by (simp only: d)
    then have "int ((i + 1) mod 256 + (i + 1) div 256 mod 256 * 256 +
             (i + 1) div 65536 mod 256 * 65536) = int (i + 1)"
      by (rule arg_cong)
    then show "int ((i + 1) mod 256) + int ((i + 1) div 256 mod 256) * 256 +
              int ((i + 1) div 65536 mod 256) * 65536 - 1 = int i"
      unfolding of_nat_add of_nat_mult of_nat_numeral of_nat_1 by linarith
    from e show "[(i + 1) mod 256, (i + 1) div 256 mod 256, (i + 1) div 65536 mod 256] \<noteq> [0, 0, 0]"
      by auto
  qed
  have "slot 3 (calculatePickingColors ps (getPointCount ps)) (getPolygonOffsets ps ! i + k) =
           [(i + 1) mod 256, (i + 1) div 256 mod 256, (i + 1) div 65536 mod 256]"
    using pickingColors_slot [OF assms] by (simp only: d)
  with dec nz show ?thesis
    by (intro conjI impI)
qed

theorem picking_color_slots_witness:
  "slot 3
     (calculatePickingColors
        [Complex [[(0, 0, None), (1, 0, None), (0::int, 1, None)]],
         Complex [[(0, 0, None), (4, 0, None), (4, 4, None), (0, 4, None)],
                  [(1, 1, None), (2, 1, None), (1, 2, None)]]]
        (getPointCount
           [Complex [[(0, 0, None), (1, 0, None), (0::int, 1, None)]],
            Complex [[(0, 0, None), (4, 0, None), (4, 4, None), (0, 4, None)],
                     [(1, 1, None), (2, 1, None), (1, 2, None)]]]))
     (getPolygonOffsets
        [Complex [[(0, 0, None), (1, 0, None), (0::int, 1, None)]],
         Complex [[(0, 0, None), (4, 0, None), (4, 4, None), (0, 4, None)],
                  [(1, 1, None), (2, 1, None), (1, 2, None)]]] ! 1 + 6) = [2, 0, 0]"
  using picking_color_slots
    [of 1 "[Complex [[(0, 0, None), (1, 0, None), (0::int, 1, None)]],
         Complex [[(0, 0, None), (4, 0, None), (4, 4, None), (0, 4, None)],
                  [(1, 1, None), (2, 1, None), (1, 2, None)]]]" 6]
  by simp

theorem picking_color_zero_counterexample:
  "slot 3
     (calculatePickingColors
        (replicate 16777216 (Complex [[(0, 0, None), (1, 0, None), (0::int, 1, None)]]))
        (getPointCount
           (replicate 16777216 (Complex [[(0, 0, None), (1, 0, None), (0::int, 1, None)]]))))
     (getPolygonOffsets
        (replicate 16777216 (Complex [[(0, 0, None), (1, 0, None), (0::int, 1, None)]]))
        ! 16777215 + 0) = [0, 0, 0]"
  using pickingColors_slot
    [of 16777215 "replicate 16777216 (Complex [[(0, 0, None), (1, 0, None), (0::int, 1, None)]])" 0]
  by simp

section \<open>The index buffer\<close>

lemma replicate_numeral: "replicate (numeral n) x = x # replicate (pred_numeral n) x"
  by (simp add: numeral_eq_Suc)

lemma forEach_from_preserves:
  assumes "\<And>x k s. P s \<Longrightarrow> P (step x k s)"
  shows "P s \<Longrightarrow> P (forEach_from step k xs s)"
  by (induction xs arbitrary: k s) (simp_all add: assms)

lemma calculateIndices_Inl_iff:
  "calculateIndices triangleCount earcut ps indexType w = Inl e \<longleftrightarrow>
     e = IndexOverflowError \<and> indexType = Uint16Array \<and>
     65535 < 3 * getTriangleCount triangleCount ps"
  by (auto simp: calculateIndices_def Let_def split: prod.splits)

lemma calculateIndices_Uint32Array:
  "\<exists>r. calculateIndices triangleCount earcut ps Uint32Array w = Inr r"
  by (cases "calculateIndices triangleCount earcut ps Uint32Array w")
    (simp_all add: calculateIndices_Inl_iff)


lemma index_loop_calls:
  assumes step: "\<And>p k a i calls. step p k (a, i, calls) = (wr p k a i, ix p k i, calls @ [k])"
  shows "forEach_from step k ps (a, i, calls) =
     (fst (forEach_from step k ps (a, i, [])),
      fst (snd (forEach_from step k ps (a, i, []))),
      calls @ [k..<k + length ps])"
proof (induction ps arbitrary: k a i calls)
  case Nil
  then show ?case by simp
next
  case (Cons p ps)
  have upt: "[k..<k + length (p # ps)] = k # [Suc k..<Suc k + length ps]"
    by (subst upt_rec) simp
  show ?case
    unfolding upt
    by (simp add: step Cons.IH [of "Suc k" _ _ "calls @ [k]"] Cons.IH [of "Suc k" _ _ "[k]"])
qed

lemma calculateIndices_Inr:
  assumes "\<not> (indexType = Uint16Array \<and> 65535 < 3 * getTriangleCount triangleCount ps)"
  shows "calculateIndices triangleCount earcut ps indexType w =
     Inr (length (iw_arrays w),
          \<lparr>iw_arrays = iw_arrays w @ [index_buffer triangleCount earcut ps indexType],
           iw_earcutCalls = iw_earcutCalls w @ [0..<length ps]\<rparr>)"
proof -
  define step where "step =
     (\<lambda>(polygon :: 'a polygon) polygonIndex (attribute, i :: nat, calls).
          (write_seq attribute i
             (map (\<lambda>index. IndexType_store indexType
                      (index + getPolygonOffsets ps ! polygonIndex))
                (calculateSurfaceIndices earcut polygon)),
           i + length (calculateSurfaceIndices earcut polygon),
           calls @ [polygonIndex]))"
  have step: "step p k (a, i, calls) =
      (write_seq a i (map (\<lambda>index. IndexType_store indexType (index + getPolygonOffsets ps ! k))
           (calculateSurfaceIndices earcut p)),
       i + length (calculateSurfaceIndices earcut p), calls @ [k])" for p k a i calls
    by (simp add: step_def)
  note loop = index_loop_calls [of step, OF step]
  show ?thesis
    using assms
    unfolding calculateIndices_def index_buffer_def forEach_def Let_def step_def [symmetric]
    by (subst loop) simp
qed

text \<open>
  C4 (as amended): nothing of the index buffer is kept. Every call of \<open>indices()\<close> runs
  \<open>calculateIndices\<close>: it calls \<open>earcut\<close> for every polygon again and returns a newly
  allocated array; two calls in a row return two arrays of equal contents.
\<close>

theorem indices_recomputed:
  "\<exists>w' w''.
     PolygonTesselator_indices triangleCount earcut t w = Inr (length (iw_arrays w), w') \<and>
     PolygonTesselator_indices triangleCount earcut t w' = Inr (length (iw_arrays w) + 1, w'') \<and>
     length (iw_arrays w'') = length (iw_arrays w) + 2 \<and>
     iw_arrays w'' ! (length (iw_arrays w) + 1) = iw_arrays w'' ! length (iw_arrays w) \<and>
     iw_earcutCalls w' = iw_earcutCalls w @ [0..<length (polygons t)] \<and>
     iw_earcutCalls w'' = iw_earcutCalls w' @ [0..<length (polygons t)]"
  by (simp add: PolygonTesselator_indices_def calculateIndices_Inr nth_append)

theorem indices_recomputed_witness:
  "PolygonTesselator_indices Polygon_getTriangleCount fan_earcut
     \<lparr>polygons = [Complex [[(0, 0, None), (1, 0, None), (0::int, 1, None)]]],
      pointCount = 3,
      attributes = \<lparr>positions = None, nextPositions = None, positions64xyLow = None,
        nextPositions64xyLow = None, colors = None,
        pickingColors = [1, 0, 0, 1, 0, 0, 1, 0, 0]\<rparr>\<rparr>
     \<lparr>iw_arrays = [], iw_earcutCalls = []\<rparr> =
   Inr (0, \<lparr>iw_arrays = [[0, 1, 2]], iw_earcutCalls = [0]\<rparr>)"
  using indices_recomputed [of Polygon_getTriangleCount fan_earcut
     "\<lparr>polygons = [Complex [[(0, 0, None), (1, 0, None), (0::int, 1, None)]]],
      pointCount = 3,
      attributes = \<lparr>positions = None, nextPositions = None, positions64xyLow = None,
        nextPositions64xyLow = None, colors = None,
        pickingColors = [1, 0, 0, 1, 0, 0, 1, 0, 0]\<rparr>\<rparr>"
     "\<lparr>iw_arrays = [], iw_earcutCalls = []\<rparr>"]
  by (simp add: PolygonTesselator_indices_def calculateIndices_def forEach_def
      getTriangleCount_def Polygon_getTriangleCount_def calculateSurfaceIndices_def
      fan_earcut_def flattenVertices_def getPolygonOffsets_def Let_def replicate_numeral)

theorem indices_not_cached_counterexample:
  "PolygonTesselator_new [Simple [(0, 0, None), (1, 0, None), (0::int, 1, None)]] =
     Inr \<lparr>polygons = [Complex [[(0, 0, None), (1, 0, None), (0, 1, None)]]],
          pointCount = 3,
          attributes = \<lparr>positions = None, nextPositions = None, positions64xyLow = None,
            nextPositions64xyLow = None, colors = None,
            pickingColors = [1, 0, 0, 1, 0, 0, 1, 0, 0]\<rparr>\<rparr> \<and>
   PolygonTesselator_indices Polygon_getTriangleCount fan_earcut
     \<lparr>polygons = [Complex [[(0, 0, None), (1, 0, None), (0::int, 1, None)]]],
      pointCount = 3,
      attributes = \<lparr>positions = None, nextPositions = None, positions64xyLow = None,
        nextPositions64xyLow = None, colors = None,
        pickingColors = [1, 0, 0, 1, 0, 0, 1, 0, 0]\<rparr>\<rparr>
     \<lparr>iw_arrays = [], iw_earcutCalls = []\<rparr> =
     Inr (0, \<lparr>iw_arrays = [[0, 1, 2]], iw_earcutCalls = [0]\<rparr>) \<and>
   PolygonTesselator_indices Polygon_getTriangleCount fan_earcut
     \<lparr>polygons = [Complex [[(0, 0, None), (1, 0, None), (0::int, 1, None)]]],
      pointCount = 3,
      attributes = \<lparr>positions = None, nextPositions = None, positions64xyLow = None,
        nextPositions64xyLow = None, colors = None,
        pickingColors = [1, 0, 0, 1, 0, 0, 1, 0, 0]\<rparr>\<rparr>
     \<lparr>iw_arrays = [[0, 1, 2]], iw_earcutCalls = [0]\<rparr> =
     Inr (1, \<lparr>iw_arrays = [[0, 1, 2], [0, 1, 2]], iw_earcutCalls = [0, 0]\<rparr>)"
  by (simp add: PolygonTesselator_new_def calculatePickingColors_def getPickingColor_def
      fillArray_def getPointCount_def
      PolygonTesselator_indices_def calculateIndices_def forEach_def
      getTriangleCount_def Polygon_getTriangleCount_def calculateSurfaceIndices_def
      fan_earcut_def flattenVertices_def getPolygonOffsets_def Let_def replicate_numeral)

section \<open>Buffers of the class\<close>

lemma popStartVertex_lengths:
  "buffer_lengths (popStartVertex fround extruded fp64 s) = buffer_lengths s"
  by (simp add: popStartVertex_def buffer_lengths_def Let_def split: option.split)

lemma visitVertex_lengths:
  "buffer_lengths (visitVertex fround extruded fp64 height vertex vertexIndex s) = buffer_lengths s"
proof -
  have pop: "buffer_lengths ((popStartVertex fround extruded fp64 u)\<lparr>st_startVertex := v\<rparr>) =
             buffer_lengths u" for u v
    using popStartVertex_lengths [of fround extruded fp64 u] by (simp add: buffer_lengths_def)
  show ?thesis
    unfolding visitVertex_def Let_def
    by (simp add: pop) (simp add: buffer_lengths_def)
qed

lemma forEachVertex_lengths:
  "buffer_lengths (forEachVertex polygon (visitVertex fround extruded fp64 height) s) =
   buffer_lengths s"
proof -
  have ring: "buffer_lengths (forEach_from (visitVertex fround extruded fp64 height) k r u) =
              buffer_lengths s" if "buffer_lengths u = buffer_lengths s" for k r u
    using that by (rule forEach_from_preserves [rotated]) (simp add: visitVertex_lengths)
  show ?thesis
  proof (cases polygon)
    case (Simple r)
    then show ?thesis by (simp add: forEach_def ring)
  next
    case (Complex rs)
    have "buffer_lengths (forEach_from
            (\<lambda>simplePolygon k. forEach (visitVertex fround extruded fp64 height) simplePolygon)
            0 rs s) = buffer_lengths s"
      by (rule forEach_from_preserves [where P = "\<lambda>u. buffer_lengths u = buffer_lengths s"])
        (simp_all add: forEach_def ring)
    with Complex show ?thesis by (simp add: forEach_def)
  qed
qed

lemma updatePositions_buffers_lengths:
  "buffer_lengths (updatePositions_buffers fround pos low nxt nextLow ps getHeight extruded fp64) =
     (length pos, length low, length nxt, length nextLow)"
proof -
  let ?init = "\<lparr>st_positions = pos, st_positions64xyLow = low,
           st_nextPositions = nxt, st_nextPositions64xyLow = nextLow,
           st_i = 0, st_j = 0, st_nextI = 0, st_nextJ = 0,
           st_startVertex = None, st_getHeightCalls = []\<rparr>"
  have calls: "buffer_lengths (u\<lparr>st_getHeightCalls := c\<rparr>) = buffer_lengths u" for u :: "'a position_state" and c
    by (simp add: buffer_lengths_def)
  have "buffer_lengths (forEach_from
          (\<lambda>polygon polygonIndex s.
             if extruded then
               forEachVertex polygon
                 (visitVertex fround extruded fp64 (getHeight polygonIndex))
                 (s\<lparr>st_getHeightCalls := st_getHeightCalls s @ [polygonIndex]\<rparr>)
             else forEachVertex polygon (visitVertex fround extruded fp64 0) s)
          0 ps ?init) = buffer_lengths ?init"
    by (rule forEach_from_preserves [where P = "\<lambda>u. buffer_lengths u = buffer_lengths ?init"])
      (simp_all add: forEachVertex_lengths calls)
  then show ?thesis
    by (simp add: updatePositions_buffers_def forEach_def popStartVertex_lengths)
      (simp add: buffer_lengths_def)
qed

lemma updateColors_length:
  "length (cs_colors (updateColors buffer h ps getColor)) = length buffer"
proof -
  have "length (cs_colors (forEach_from
          (\<lambda>complexPolygon polygonIndex s.
          let (h', color) = parseColor (cs_heap s) (getColor polygonIndex);
              vertexCount = Polygon_getVertexCount complexPolygon
          in \<lparr>cs_colors = fillArray (cs_colors s) color (cs_i s) vertexCount,
              cs_i = cs_i s + length color * vertexCount,
              cs_heap = h',
              cs_getColorCalls = cs_getColorCalls s @ [polygonIndex]\<rparr>) 0 ps
          \<lparr>cs_colors = buffer, cs_i = 0, cs_heap = h, cs_getColorCalls = []\<rparr>)) = length buffer"
    by (rule forEach_from_preserves [where P = "\<lambda>u. length (cs_colors u) = length buffer"])
      (simp_all add: fillArray_def Let_def split: prod.split)
  then show ?thesis by (simp add: updateColors_def forEach_def)
qed

lemma PolygonTesselator_new_fields:
  assumes "PolygonTesselator_new ps = Inr t"
  shows "pointCount t = getPointCount (polygons t)"
    and "positions (attributes t) = None" and "nextPositions (attributes t) = None"
    and "positions64xyLow (attributes t) = None" and "nextPositions64xyLow (attributes t) = None"
    and "colors (attributes t) = None"
    and "pickingColors (attributes t) = calculatePickingColors (polygons t) (getPointCount (polygons t))"
  using assms by (auto simp: PolygonTesselator_new_def split: sum.splits)

lemma updatePositions_buffers_length:
  "length (st_positions (updatePositions_buffers fround pos low nxt nextLow ps getHeight extruded fp64)) = length pos"
  "length (st_positions64xyLow (updatePositions_buffers fround pos low nxt nextLow ps getHeight extruded fp64)) = length low"
  "length (st_nextPositions (updatePositions_buffers fround pos low nxt nextLow ps getHeight extruded fp64)) = length nxt"
  "length (st_nextPositions64xyLow (updatePositions_buffers fround pos low nxt nextLow ps getHeight extruded fp64)) = length nextLow"
  using updatePositions_buffers_lengths [of fround pos low nxt nextLow ps getHeight extruded fp64]
  by (simp_all add: buffer_lengths_def)

lemma updatePositions_attributes:
  fixes t :: "'n::{zero,plus,minus} PolygonTesselator"
  assumes "positions (attributes t) = None" and "nextPositions (attributes t) = None"
    and "positions64xyLow (attributes t) = None" and "nextPositions64xyLow (attributes t) = None"
  shows "\<exists>b. positions (attributes (fst (updatePositions fround t fp64 extruded getHeight))) = Some b \<and>
             length b = pointCount t * 3"
    and "\<exists>b. nextPositions (attributes (fst (updatePositions fround t fp64 extruded getHeight))) = Some b \<and>
             length b = pointCount t * 3"
    and "fp64 \<Longrightarrow>
         \<exists>b. positions64xyLow (attributes (fst (updatePositions fround t fp64 extruded getHeight))) = Some b \<and>
             length b = pointCount t * 2"
    and "fp64 \<Longrightarrow>
         \<exists>b. nextPositions64xyLow (attributes (fst (updatePositions fround t fp64 extruded getHeight))) = Some b \<and>
             length b = pointCount t * 2"
    and "\<not> fp64 \<Longrightarrow>
         positions64xyLow (attributes (fst (updatePositions fround t fp64 extruded getHeight))) = None"
    and "\<not> fp64 \<Longrightarrow>
         nextPositions64xyLow (attributes (fst (updatePositions fround t fp64 extruded getHeight))) = None"
  by (simp_all add: updatePositions_def Let_def or_new_def assms updatePositions_buffers_length)

text \<open>
  C3 (as amended): after construction no position buffer exists, and the four position
  accessors return \<open>undefined\<close>. A call of \<open>updatePositions\<close> allocates \<open>positions\<close> and
  \<open>nextPositions\<close> with 3 entries per cached vertex, and the two low buffers, with 2
  entries per vertex, only when \<open>fp64\<close> is set. \<open>colors()\<close> allocates its buffer itself
  and returns it, with 4 entries per vertex. The cached vertex count is that of the
  normalised polygons.
\<close>

theorem accessors_after_construction:
  fixes t :: "'n::{zero,plus,minus} PolygonTesselator"
  assumes "PolygonTesselator_new ps = Inr t"
  shows "PolygonTesselator_positions t = None \<and>
         PolygonTesselator_nextPositions t = None \<and>
         PolygonTesselator_positions64xyLow t = None \<and>
         PolygonTesselator_nextPositions64xyLow t = None \<and>
         pointCount t = getPointCount (polygons t) \<and>
         (\<exists>b. PolygonTesselator_positions (fst (updatePositions fround t fp64 extruded getHeight)) = Some b \<and>
              length b = pointCount t * 3) \<and>
         (\<exists>b. PolygonTesselator_nextPositions (fst (updatePositions fround t fp64 extruded getHeight)) = Some b \<and>
              length b = pointCount t * 3) \<and>
         (if fp64 then
            (\<exists>b. PolygonTesselator_positions64xyLow (fst (updatePositions fround t fp64 extruded getHeight)) = Some b \<and>
                 length b = pointCount t * 2) \<and>
            (\<exists>b. PolygonTesselator_nextPositions64xyLow (fst (updatePositions fround t fp64 extruded getHeight)) = Some b \<and>
                 length b = pointCount t * 2)
          else
            PolygonTesselator_positions64xyLow (fst (updatePositions fround t fp64 extruded getHeight)) = None \<and>
            PolygonTesselator_nextPositions64xyLow (fst (updatePositions fround t fp64 extruded getHeight)) = None) \<and>
         colors (attributes (fst (PolygonTesselator_colors t h getColor))) =
           Some (cs_colors (snd (PolygonTesselator_colors t h getColor))) \<and>
         length (cs_colors (snd (PolygonTesselator_colors t h getColor))) = pointCount t * 4"
proof -
  note f = PolygonTesselator_new_fields [OF assms]
  note u = updatePositions_attributes [OF f(2-5)]
  have c: "colors (attributes (fst (PolygonTesselator_colors t h getColor))) =
           Some (cs_colors (snd (PolygonTesselator_colors t h getColor)))"
    "length (cs_colors (snd (PolygonTesselator_colors t h getColor))) = pointCount t * 4"
    by (simp_all add: PolygonTesselator_colors_def Let_def updateColors_length or_new_def f(6))
  show ?thesis
    unfolding PolygonTesselator_positions_def PolygonTesselator_nextPositions_def
      PolygonTesselator_positions64xyLow_def PolygonTesselator_nextPositions64xyLow_def
    using f(1-5) u c by (cases fp64) simp_all
qed

theorem accessors_after_construction_witness:
  "PolygonTesselator_positions
     \<lparr>polygons = [Complex [[(0, 0, None), (1, 0, None), (0::int, 1, None)]]],
      pointCount = 3,
      attributes = \<lparr>positions = None, nextPositions = None, positions64xyLow = None,
        nextPositions64xyLow = None, colors = None,
        pickingColors = [1, 0, 0, 1, 0, 0, 1, 0, 0]\<rparr>\<rparr> = None \<and>
   length (the (PolygonTesselator_positions (fst (updatePositions (\<lambda>x. x)
     \<lparr>polygons = [Complex [[(0, 0, None), (1, 0, None), (0::int, 1, None)]]],
      pointCount = 3,
      attributes = \<lparr>positions = None, nextPositions = None, positions64xyLow = None,
        nextPositions64xyLow = None, colors = None,
        pickingColors = [1, 0, 0, 1, 0, 0, 1, 0, 0]\<rparr>\<rparr> False True int)))) = 9 \<and>
   PolygonTesselator_positions64xyLow (fst (updatePositions (\<lambda>x. x)
     \<lparr>polygons = [Complex [[(0, 0, None), (1, 0, None), (0::int, 1, None)]]],
      pointCount = 3,
      attributes = \<lparr>positions = None, nextPositions = None, positions64xyLow = None,
        nextPositions64xyLow = None, colors = None,
        pickingColors = [1, 0, 0, 1, 0, 0, 1, 0, 0]\<rparr>\<rparr> False True int)) = None"
proof -
  have new: "PolygonTesselator_new [Simple [(0, 0, None), (1, 0, None), (0::int, 1, None)]] =
     Inr \<lparr>polygons = [Complex [[(0, 0, None), (1, 0, None), (0, 1, None)]]],
          pointCount = 3,
          attributes = \<lparr>positions = None, nextPositions = None, positions64xyLow = None,
            nextPositions64xyLow = None, colors = None,
            pickingColors = [1, 0, 0, 1, 0, 0, 1, 0, 0]\<rparr>\<rparr>"
    by (simp add: PolygonTesselator_new_def calculatePickingColors_def getPickingColor_def
        fillArray_def getPointCount_def forEach_def Let_def replicate_numeral)
  from accessors_after_construction [OF new, of "\<lambda>x. x" False True int "\<lambda>a. []" None]
  show ?thesis
    by auto
qed

theorem positions_undefined_counterexample:
  "map_sum id PolygonTesselator_positions
     (PolygonTesselator_new [Simple [(0, 0, None), (1, 0, None), (0::int, 1, None)]]) = Inr None"
  by (simp add: PolygonTesselator_new_def PolygonTesselator_positions_def)

section \<open>The colour pass\<close>

lemma get_array_set: "get (array_set a i v) i = v"
  by (simp add: get_def array_set_def nth_append)

lemma length_array_set: "i < length (array_set a i v)"
  by (simp add: array_set_def)

lemma alpha_or_255_finite: "Number_isFinite (alpha_or_255 a)"
  by (simp add: alpha_or_255_def)

lemma with_alpha_idem: "with_alpha (with_alpha a) = with_alpha a"
proof -
  let ?b = "with_alpha a"
  have g: "get ?b 3 = alpha_or_255 a"
    by (simp add: with_alpha_def get_array_set)
  then have "alpha_or_255 ?b = get ?b 3"
    by (simp add: alpha_or_255_def [of ?b] alpha_or_255_finite)
  moreover have l: "3 < length ?b"
    by (simp add: with_alpha_def length_array_set)
  then have "array_set ?b 3 (get ?b 3) = ?b"
    by (simp add: array_set_def get_def)
  ultimately show ?thesis
    by (simp add: with_alpha_def [of ?b])
qed

lemma with_alpha_rgba:
  assumes "length a \<le> 4"
  shows "with_alpha a = [get a 0, get a 1, get a 2, alpha_or_255 a]"
proof (cases a)
  case Nil
  then show ?thesis
    by (simp add: with_alpha_def array_set_def get_def numeral_3_eq_3)
next
  case a1: (Cons x1 r1)
  show ?thesis
  proof (cases r1)
    case Nil
    with a1 show ?thesis
      by (simp add: with_alpha_def array_set_def get_def numeral_3_eq_3)
  next
    case a2: (Cons x2 r2)
    show ?thesis
    proof (cases r2)
      case Nil
      with a1 a2 show ?thesis
        by (simp add: with_alpha_def array_set_def get_def numeral_3_eq_3)
    next
      case a3: (Cons x3 r3)
      show ?thesis
      proof (cases r3)
        case Nil
        with a1 a2 a3 show ?thesis
          by (simp add: with_alpha_def array_set_def get_def numeral_3_eq_3)
      next
        case (Cons x4 r4)
        with a1 a2 a3 assms have "r4 = []" by simp
        with a1 a2 a3 Cons show ?thesis
          by (simp add: with_alpha_def array_set_def get_def numeral_3_eq_3)
      qed
    qed
  qed
qed

lemma parseColor_JSArray: "parseColor h (JSArray r) = (h(r := with_alpha (h r)), with_alpha (h r))"
  by (simp add: with_alpha_def Let_def)

lemma parseColor_ArrayLike:
  "parseColor h (ArrayLike c) = (h, with_alpha [get c 0, get c 1, get c 2, get c 3])"
  by (simp add: with_alpha_def Let_def)

lemma parsed_rgba:
  assumes "fits_rgba h c"
  shows "parsed h c =
     [get (channels h c) 0, get (channels h c) 1, get (channels h c) 2,
      alpha_or_255 (channels h c)]"
proof (cases c)
  case (JSArray r)
  with assms show ?thesis
    by (simp add: parsed_def parseColor_JSArray with_alpha_rgba del: parseColor.simps)
next
  case (ArrayLike a)
  have "alpha_or_255 [get a 0, get a 1, get a 2, get a 3] = alpha_or_255 a"
    by (simp add: alpha_or_255_def) (simp add: get_def numeral_3_eq_3)
  with ArrayLike show ?thesis
    by (simp add: parsed_def parseColor_ArrayLike with_alpha_rgba del: parseColor.simps)
      (simp add: get_def numeral_2_eq_2)
qed

lemma heap_inv_refl: "heap_inv h h"
  by (simp add: heap_inv_def)

lemma heap_inv_with_alpha: "heap_inv h0 h \<Longrightarrow> with_alpha (h r) = with_alpha (h0 r)"
  unfolding heap_inv_def by (metis with_alpha_idem)

lemma heap_inv_parseColor:
  assumes "heap_inv h0 h"
  shows "heap_inv h0 (fst (parseColor h c))" and "snd (parseColor h c) = parsed h0 c"
proof -
  show "heap_inv h0 (fst (parseColor h c))"
  proof (cases c)
    case (JSArray r)
    with assms heap_inv_with_alpha [OF assms, of r] show ?thesis
      by (simp add: parseColor_JSArray heap_inv_def del: parseColor.simps)
  next
    case (ArrayLike a)
    with assms show ?thesis
      by (simp add: parseColor_ArrayLike del: parseColor.simps)
  qed
  show "snd (parseColor h c) = parsed h0 c"
    by (cases c)
      (simp_all add: parsed_def parseColor_JSArray parseColor_ArrayLike
        heap_inv_with_alpha [OF assms] del: parseColor.simps)
qed

lemma updateColors_color_step:
  "updateColors buffer h ps getColor =
     forEach_from (color_step getColor) 0 ps
       \<lparr>cs_colors = buffer, cs_i = 0, cs_heap = h, cs_getColorCalls = []\<rparr>"
  by (simp add: updateColors_def forEach_def color_step_def)

lemma color_block_eq:
  "map ToUint8Clamp (concat (replicate (Polygon_getVertexCount p) (parsed h0 (getColor k)))) =
   color_block h0 getColor p k"
  by (simp add: color_block_def vertexCount_vertices map_concat map_replicate_const)

lemma color_step_fields:
  "cs_colors (color_step getColor p k s) =
     fillArray (cs_colors s) (snd (parseColor (cs_heap s) (getColor k))) (cs_i s)
       (Polygon_getVertexCount p)"
  "cs_i (color_step getColor p k s) =
     cs_i s + length (snd (parseColor (cs_heap s) (getColor k))) * Polygon_getVertexCount p"
  "cs_heap (color_step getColor p k s) = fst (parseColor (cs_heap s) (getColor k))"
  "cs_getColorCalls (color_step getColor p k s) = cs_getColorCalls s @ [k]"
  by (simp_all add: color_step_def Let_def case_prod_unfold del: parseColor.simps)

lemma color_step_writes:
  assumes "heap_inv h0 (cs_heap s)"
  shows "heap_inv h0 (cs_heap (color_step getColor p k s))"
    and "cs_colors (color_step getColor p k s) =
           write_seq (cs_colors s) (cs_i s) (color_block h0 getColor p k)"
    and "cs_i (color_step getColor p k s) = cs_i s + length (color_block h0 getColor p k)"
proof -
  note pc = heap_inv_parseColor [OF assms]
  show "heap_inv h0 (cs_heap (color_step getColor p k s))"
    by (simp add: color_step_fields pc del: parseColor.simps)
  show "cs_colors (color_step getColor p k s) =
           write_seq (cs_colors s) (cs_i s) (color_block h0 getColor p k)"
    by (simp add: color_step_fields pc fillArray_def color_block_eq del: parseColor.simps)
  show "cs_i (color_step getColor p k s) = cs_i s + length (color_block h0 getColor p k)"
    unfolding color_block_eq [symmetric]
    by (simp add: color_step_fields pc length_concat_replicate del: parseColor.simps)
qed

lemma forEach_from_calls:
  assumes "\<And>x k s. calls (step x k s) = calls s @ [k]"
  shows "calls (forEach_from step k xs s) = calls s @ [k..<k + length xs]"
proof (induction xs arbitrary: k s)
  case Nil
  then show ?case by simp
next
  case (Cons x xs)
  have upt: "[k..<k + length (x # xs)] = k # [Suc k..<Suc k + length xs]"
    by (subst upt_rec) simp
  show ?case
    unfolding upt by (simp add: Cons.IH assms)
qed

lemma updateColors_calls:
  "cs_getColorCalls (updateColors buffer h ps getColor) = [0..<length ps]"
  unfolding updateColors_color_step
  by (subst forEach_from_calls [where calls = cs_getColorCalls])
    (simp_all add: color_step_fields del: parseColor.simps)

lemma updateColors_writes:
  "cs_colors (updateColors buffer h ps getColor) =
     write_seq buffer 0 (concat (map (\<lambda>(i, p). color_block h getColor p i) (enumerate 0 ps)))"
  using forEach_from_writes
    [of "\<lambda>s. heap_inv h (cs_heap s)" "color_step getColor" cs_colors cs_i "color_block h getColor"
        "\<lparr>cs_colors = buffer, cs_i = 0, cs_heap = h, cs_getColorCalls = []\<rparr>" 0 ps]
  by (simp add: updateColors_color_step color_step_writes heap_inv_refl)

lemma vertex_slots_index: "(i, v) \<in> set (vertex_slots ps) \<Longrightarrow> i < length ps"
  by (auto simp: vertex_slots_def in_set_enumerate_eq)

lemma length_concat_uniform:
  "\<forall>x \<in> set xs. length (f x) = n \<Longrightarrow> length (concat (map f xs)) = n * length xs"
  by (induction xs) simp_all

lemma parsed_length: "fits_rgba h c \<Longrightarrow> length (parsed h c) = 4"
  by (simp add: parsed_rgba)

lemma updateColors_flat:
  assumes "length buffer = getPointCount ps * 4"
    and "\<forall>i < length ps. fits_rgba h (getColor i)"
  shows "cs_colors (updateColors buffer h ps getColor) =
     concat (map (\<lambda>(i, v). map ToUint8Clamp (parsed h (getColor i))) (vertex_slots ps))"
proof -
  let ?ws = "concat (map (\<lambda>(i, v). map ToUint8Clamp (parsed h (getColor i))) (vertex_slots ps))"
  have "concat (map (\<lambda>(i, p). color_block h getColor p i) (enumerate 0 ps)) = ?ws"
    unfolding color_block_def vertex_slots_def by (rule concat_blocks_vertex_slots)
  moreover have "length ?ws = 4 * length (vertex_slots ps)"
    using assms(2) by (intro length_concat_uniform) (auto simp: parsed_length dest: vertex_slots_index)
  ultimately show ?thesis
    using assms(1) by (simp add: updateColors_writes write_seq_whole length_vertex_slots)
qed

lemma updateColors_slot:
  assumes "length buffer = getPointCount ps * 4"
    and "\<forall>i < length ps. fits_rgba h (getColor i)"
    and "i < length ps" and "k < Polygon_getVertexCount (ps ! i)"
  shows "slot 4 (cs_colors (updateColors buffer h ps getColor)) (getPolygonOffsets ps ! i + k) =
     map ToUint8Clamp (parsed h (getColor i))"
proof -
  have "slot 4 (concat (map (\<lambda>(i, v). map ToUint8Clamp (parsed h (getColor i))) (vertex_slots ps)))
          (getPolygonOffsets ps ! i + k) =
        (\<lambda>(i, v). map ToUint8Clamp (parsed h (getColor i)))
          (vertex_slots ps ! (getPolygonOffsets ps ! i + k))"
    using assms(2)
    by (intro slot_concat_uniform vertex_slots_nth(2) [OF assms(3,4)])
      (auto simp: parsed_length dest: vertex_slots_index)
  then show ?thesis
    by (simp add: updateColors_flat [OF assms(1,2)] vertex_slots_nth(1) [OF assms(3,4)])
qed

lemma consistent_new: "PolygonTesselator_new ps = Inr t \<Longrightarrow> consistent t"
  by (simp add: consistent_def PolygonTesselator_new_fields)

lemma consistent_updatePositions:
  "consistent t \<Longrightarrow> consistent (fst (updatePositions fround t fp64 extruded getHeight))"
  by (auto simp: consistent_def updatePositions_def Let_def or_new_def
      updatePositions_buffers_length split: option.splits)

lemma consistent_colors:
  "consistent t \<Longrightarrow> consistent (fst (PolygonTesselator_colors t h getColor))"
  by (auto simp: consistent_def PolygonTesselator_colors_def Let_def or_new_def
      updateColors_length split: option.splits)

lemma colors_buffer_length:
  "consistent t \<Longrightarrow> length (or_new (colors (attributes t)) (pointCount t * 4)) =
     getPointCount (polygons t) * 4"
  by (auto simp: consistent_def or_new_def split: option.splits)

lemma ToUint8Clamp_255: "ToUint8Clamp (Num 255) = 255"
  by simp

text \<open>
  C9: a colour pass calls the accessor once per polygon, in order. With accessor results
  of at most four channels, every vertex slot of polygon \<open>i\<close> holds the bytes of the
  first three channels of the colour of \<open>i\<close> and of its alpha, which is 255 where the
  colour has no finite alpha, so for a colour of three channels. Without an accessor
  every vertex slot holds \<open>(0, 0, 0, 255)\<close>.
\<close>

theorem color_pass:
  assumes "consistent t"
    and "i < length (polygons t)" and "k < Polygon_getVertexCount (polygons t ! i)"
  shows "cs_getColorCalls (snd (PolygonTesselator_colors t h (Some getColor))) =
           [0..<length (polygons t)] \<and>
         cs_getColorCalls (snd (PolygonTesselator_colors t h None)) = [0..<length (polygons t)] \<and>
         ((\<forall>j < length (polygons t). fits_rgba h (getColor j)) \<longrightarrow>
            slot 4 (cs_colors (snd (PolygonTesselator_colors t h (Some getColor))))
              (getPolygonOffsets (polygons t) ! i + k) =
              [ToUint8Clamp (get (channels h (getColor i)) 0),
               ToUint8Clamp (get (channels h (getColor i)) 1),
               ToUint8Clamp (get (channels h (getColor i)) 2),
               ToUint8Clamp (alpha_or_255 (channels h (getColor i)))] \<and>
            (length (channels h (getColor i)) = 3 \<longrightarrow>
               ToUint8Clamp (alpha_or_255 (channels h (getColor i))) = 255)) \<and>
         (module_loaded h \<longrightarrow>
            slot 4 (cs_colors (snd (PolygonTesselator_colors t h None)))
              (getPolygonOffsets (polygons t) ! i + k) = [0, 0, 0, 255])"
proof -
  note len = colors_buffer_length [OF assms(1)]
  have calls: "cs_getColorCalls (snd (PolygonTesselator_colors t h g)) = [0..<length (polygons t)]"
    for g
    by (simp add: PolygonTesselator_colors_def Let_def updateColors_calls)
  have some: "slot 4 (cs_colors (snd (PolygonTesselator_colors t h (Some getColor))))
              (getPolygonOffsets (polygons t) ! i + k) =
              [ToUint8Clamp (get (channels h (getColor i)) 0),
               ToUint8Clamp (get (channels h (getColor i)) 1),
               ToUint8Clamp (get (channels h (getColor i)) 2),
               ToUint8Clamp (alpha_or_255 (channels h (getColor i)))]"
    if fits: "\<forall>j < length (polygons t). fits_rgba h (getColor j)"
    using updateColors_slot [OF len fits assms(2,3)] fits assms(2)
    by (simp add: PolygonTesselator_colors_def Let_def parsed_rgba)
  have three: "ToUint8Clamp (alpha_or_255 (channels h (getColor i))) = 255"
    if "length (channels h (getColor i)) = 3"
    using that by (simp add: alpha_or_255_def get_def)
  have none: "slot 4 (cs_colors (snd (PolygonTesselator_colors t h None)))
              (getPolygonOffsets (polygons t) ! i + k) = [0, 0, 0, 255]"
    if "module_loaded h"
  proof -
    from that have d: "h DEFAULT_COLOR = [Num 0, Num 0, Num 0, Num 255]"
      by (simp add: module_loaded_def)
    then have fits: "\<forall>j < length (polygons t). fits_rgba h ((\<lambda>x. JSArray DEFAULT_COLOR) j)"
      by simp
    have "parsed h (JSArray DEFAULT_COLOR) = [Num 0, Num 0, Num 0, Num 255]"
      using d by (subst parsed_rgba) (simp_all add: get_def alpha_or_255_def)
    with updateColors_slot [OF len fits assms(2,3)] show ?thesis
      by (simp add: PolygonTesselator_colors_def Let_def)
  qed
  from calls some three none show ?thesis
    by blast
qed

theorem color_pass_witness:
  "cs_getColorCalls (snd (PolygonTesselator_colors
     \<lparr>polygons = [Complex [[(0, 0, None), (1, 0, None), (0::int, 1, None)]],
                  Complex [[(0, 0, None), (4, 0, None), (4, 4, None), (0, 4, None)],
                           [(1, 1, None), (2, 1, None), (1, 2, None)]]],
      pointCount = 10,
      attributes = \<lparr>positions = None, nextPositions = None, positions64xyLow = None,
        nextPositions64xyLow = None, colors = None, pickingColors = []\<rparr>\<rparr>
     ((\<lambda>r. [])(0 := [Num 0, Num 0, Num 0, Num 255], 1 := [Num 255, Num (1 / 2), Num 300]))
     (Some (\<lambda>i. if i = 0 then ArrayLike [Num 10, Num 20, Num 30, Num 40] else JSArray 1)))) =
     [0, 1] \<and>
   slot 4 (cs_colors (snd (PolygonTesselator_colors
     \<lparr>polygons = [Complex [[(0, 0, None), (1, 0, None), (0::int, 1, None)]],
                  Complex [[(0, 0, None), (4, 0, None), (4, 4, None), (0, 4, None)],
                           [(1, 1, None), (2, 1, None), (1, 2, None)]]],
      pointCount = 10,
      attributes = \<lparr>positions = None, nextPositions = None, positions64xyLow = None,
        nextPositions64xyLow = None, colors = None, pickingColors = []\<rparr>\<rparr>
     ((\<lambda>r. [])(0 := [Num 0, Num 0, Num 0, Num 255], 1 := [Num 255, Num (1 / 2), Num 300]))
     (Some (\<lambda>i. if i = 0 then ArrayLike [Num 10, Num 20, Num 30, Num 40] else JSArray 1)))))
     (getPolygonOffsets
        [Complex [[(0, 0, None), (1, 0, None), (0::int, 1, None)]],
         Complex [[(0, 0, None), (4, 0, None), (4, 4, None), (0, 4, None)],
                  [(1, 1, None), (2, 1, None), (1, 2, None)]]] ! 1 + 6) = [255, 0, 255, 255] \<and>
   slot 4 (cs_colors (snd (PolygonTesselator_colors
     \<lparr>polygons = [Complex [[(0, 0, None), (1, 0, None), (0::int, 1, None)]],
                  Complex [[(0, 0, None), (4, 0, None), (4, 4, None), (0, 4, None)],
                           [(1, 1, None), (2, 1, None), (1, 2, None)]]],
      pointCount = 10,
      attributes = \<lparr>positions = None, nextPositions = None, positions64xyLow = None,
        nextPositions64xyLow = None, colors = None, pickingColors = []\<rparr>\<rparr>
     ((\<lambda>r. [])(0 := [Num 0, Num 0, Num 0, Num 255], 1 := [Num 255, Num (1 / 2), Num 300]))
     None)))
     (getPolygonOffsets
        [Complex [[(0, 0, None), (1, 0, None), (0::int, 1, None)]],
         Complex [[(0, 0, None), (4, 0, None), (4, 4, None), (0, 4, None)],
                  [(1, 1, None), (2, 1, None), (1, 2, None)]]] ! 1 + 6) = [0, 0, 0, 255]"
proof -
  let ?t = "\<lparr>polygons = [Complex [[(0, 0, None), (1, 0, None), (0::int, 1, None)]],
                  Complex [[(0, 0, None), (4, 0, None), (4, 4, None), (0, 4, None)],
                           [(1, 1, None), (2, 1, None), (1, 2, None)]]],
      pointCount = 10,
      attributes = \<lparr>positions = None, nextPositions = None, positions64xyLow = None,
        nextPositions64xyLow = None, colors = None, pickingColors = []\<rparr>\<rparr>"
  let ?h = "(\<lambda>r. [])(0 := [Num 0, Num 0, Num 0, Num 255], 1 := [Num 255, Num (1 / 2), Num 300])"
  let ?g = "\<lambda>i::nat. if i = 0 then ArrayLike [Num 10, Num 20, Num 30, Num 40] else JSArray 1"
  have c: "consistent ?t"
    by (simp add: consistent_def getPointCount_def)
  have i: "1 < length (polygons ?t)" and k: "6 < Polygon_getVertexCount (polygons ?t ! 1)"
    by simp_all
  have fits: "\<forall>j < length (polygons ?t). fits_rgba ?h (?g j)"
    by simp
  have loaded: "module_loaded ?h"
    by (simp add: module_loaded_def DEFAULT_COLOR_def)
  from color_pass [OF c i k, of ?h ?g] fits loaded show ?thesis
    by (simp add: get_def alpha_or_255_def)
qed

lemma exists_less_Suc_shift:
  "(\<exists>j < Suc n. P (k + j)) \<longleftrightarrow> P k \<or> (\<exists>j < n. P (Suc k + j))"
proof
  assume "\<exists>j < Suc n. P (k + j)"
  then obtain j where j: "j < Suc n" "P (k + j)" by blast
  show "P k \<or> (\<exists>j < n. P (Suc k + j))"
  proof (cases j)
    case 0
    with j show ?thesis by simp
  next
    case (Suc j')
    with j have "j' < n" "P (Suc k + j')" by simp_all
    then show ?thesis by blast
  qed
next
  assume "P k \<or> (\<exists>j < n. P (Suc k + j))"
  then show "\<exists>j < Suc n. P (k + j)"
  proof
    assume "P k"
    then have "P (k + 0)" by simp
    then show ?thesis by blast
  next
    assume "\<exists>j < n. P (Suc k + j)"
    then obtain j where "j < n" "P (Suc k + j)" by blast
    then have "Suc j < Suc n" "P (k + Suc j)" by simp_all
    then show ?thesis by blast
  qed
qed

lemma parseColor_heap:
  "fst (parseColor h c) r = (if c = JSArray r then with_alpha (h r) else h r)"
  by (cases c) (simp_all add: parseColor_JSArray parseColor_ArrayLike del: parseColor.simps)

lemma color_loop_heap:
  "cs_heap (forEach_from (color_step getColor) k ps s) r =
     (if \<exists>j < length ps. getColor (k + j) = JSArray r then with_alpha (cs_heap s r)
      else cs_heap s r)"
proof (induction ps arbitrary: k s)
  case Nil
  then show ?case by simp
next
  case (Cons p ps)
  let ?s' = "color_step getColor p k s"
  have h': "cs_heap ?s' r =
      (if getColor k = JSArray r then with_alpha (cs_heap s r) else cs_heap s r)"
    by (simp add: color_step_fields parseColor_heap del: parseColor.simps)
  have ex: "(\<exists>j < length (p # ps). getColor (k + j) = JSArray r) \<longleftrightarrow>
      getColor k = JSArray r \<or> (\<exists>j < length ps. getColor (Suc k + j) = JSArray r)"
    using exists_less_Suc_shift [of "length ps" "\<lambda>m. getColor m = JSArray r" k]
    by (simp only: length_Cons)
  have "cs_heap (forEach_from (color_step getColor) k (p # ps) s) r =
      (if \<exists>j < length ps. getColor (Suc k + j) = JSArray r then with_alpha (cs_heap ?s' r)
       else cs_heap ?s' r)"
    by (simp only: forEach_from.simps Cons.IH)
  also have "\<dots> = (if \<exists>j < length (p # ps). getColor (k + j) = JSArray r
      then with_alpha (cs_heap s r) else cs_heap s r)"
    unfolding h' ex by (auto simp: with_alpha_idem)
  finally show ?case .
qed

lemma with_alpha_not_finite:
  assumes "\<not> Number_isFinite (get a 3)"
  shows "with_alpha a = array_set a 3 (Num 255)" and "with_alpha a \<noteq> a"
proof -
  show eq: "with_alpha a = array_set a 3 (Num 255)"
    using assms by (simp add: with_alpha_def alpha_or_255_def)
  have "Number_isFinite (get (with_alpha a) 3)"
    unfolding eq by (simp add: get_array_set)
  with assms show "with_alpha a \<noteq> a" by auto
qed

text \<open>
  C10: when the accessor returns, for some polygon, an Array whose entry at index 3 is
  missing or not a finite number, the colour pass writes 255 at index 3 of that very
  array: after \<open>colors()\<close> the caller's array is changed. The colour broadcast for that
  polygon has the alpha byte 255.
\<close>

theorem color_pass_mutates_array:
  assumes "i < length (polygons t)" and "getColor i = JSArray r"
    and "\<not> Number_isFinite (get (h r) 3)"
  shows "cs_heap (snd (PolygonTesselator_colors t h (Some getColor))) r =
           array_set (h r) 3 (Num 255) \<and>
         get (cs_heap (snd (PolygonTesselator_colors t h (Some getColor))) r) 3 = Num 255 \<and>
         cs_heap (snd (PolygonTesselator_colors t h (Some getColor))) r \<noteq> h r \<and>
         (consistent t \<and> (\<forall>j < length (polygons t). fits_rgba h (getColor j)) \<and>
          k < Polygon_getVertexCount (polygons t ! i) \<longrightarrow>
            slot 4 (cs_colors (snd (PolygonTesselator_colors t h (Some getColor))))
              (getPolygonOffsets (polygons t) ! i + k) ! 3 = 255)"
proof -
  have "\<exists>j < length (polygons t). getColor (0 + j) = JSArray r"
    using assms(1,2) by auto
  then have heap: "cs_heap (snd (PolygonTesselator_colors t h (Some getColor))) r = with_alpha (h r)"
    by (simp add: PolygonTesselator_colors_def Let_def updateColors_color_step color_loop_heap)
  have alpha: "slot 4 (cs_colors (snd (PolygonTesselator_colors t h (Some getColor))))
              (getPolygonOffsets (polygons t) ! i + k) ! 3 = 255"
    if c: "consistent t" and fits: "\<forall>j < length (polygons t). fits_rgba h (getColor j)"
      and k: "k < Polygon_getVertexCount (polygons t ! i)"
  proof -
    from fits assms(1,2) have "fits_rgba h (JSArray r)"
      by metis
    from parsed_rgba [OF this] assms(3) have "map ToUint8Clamp (parsed h (JSArray r)) ! 3 = 255"
      by (simp add: alpha_or_255_def)
    with updateColors_slot [OF colors_buffer_length [OF c] fits assms(1) k] assms(2) show ?thesis
      by (simp add: PolygonTesselator_colors_def Let_def)
  qed
  from heap with_alpha_not_finite [OF assms(3)] alpha show ?thesis
    by (simp add: get_array_set)
qed

theorem color_pass_mutates_array_witness:
  "cs_heap (snd (PolygonTesselator_colors
     \<lparr>polygons = [Complex [[(0, 0, None), (1, 0, None), (0::int, 1, None)]],
                  Complex [[(0, 0, None), (4, 0, None), (4, 4, None), (0, 4, None)],
                           [(1, 1, None), (2, 1, None), (1, 2, None)]]],
      pointCount = 10,
      attributes = \<lparr>positions = None, nextPositions = None, positions64xyLow = None,
        nextPositions64xyLow = None, colors = None, pickingColors = []\<rparr>\<rparr>
     ((\<lambda>r. [])(0 := [Num 0, Num 0, Num 0, Num 255], 1 := [Num 255, Num (1 / 2), Num 300]))
     (Some (\<lambda>i. if i = 0 then ArrayLike [Num 10, Num 20, Num 30, Num 40] else JSArray 1)))) 1 =
     [Num 255, Num (1 / 2), Num 300, Num 255]"
proof -
  let ?t = "\<lparr>polygons = [Complex [[(0, 0, None), (1, 0, None), (0::int, 1, None)]],
                  Complex [[(0, 0, None), (4, 0, None), (4, 4, None), (0, 4, None)],
                           [(1, 1, None), (2, 1, None), (1, 2, None)]]],
      pointCount = 10,
      attributes = \<lparr>positions = None, nextPositions = None, positions64xyLow = None,
        nextPositions64xyLow = None, colors = None, pickingColors = []\<rparr>\<rparr>"
  let ?h = "(\<lambda>r. [])(0 := [Num 0, Num 0, Num 0, Num 255], 1 := [Num 255, Num (1 / 2), Num 300])"
  let ?g = "\<lambda>i::nat. if i = 0 then ArrayLike [Num 10, Num 20, Num 30, Num 40] else JSArray 1"
  have i: "1 < length (polygons ?t)" and g: "?g 1 = JSArray 1"
    and a: "\<not> Number_isFinite (get (?h 1) 3)"
    by (simp_all add: get_def)
  from color_pass_mutates_array [where t = ?t and h = ?h and getColor = ?g and i = 1 and r = 1
      and k = 0] i g a
  show ?thesis
    by (simp add: array_set_def)
qed

section \<open>The position pass\<close>

lemma length_position_of [simp]: "length (position_of fround height vertex) = 3"
  by (simp add: position_of_def)

lemma popStartVertex_positions:
  "st_positions (popStartVertex fround extruded fp64 s) = st_positions s"
  "st_i (popStartVertex fround extruded fp64 s) = st_i s"
  "st_getHeightCalls (popStartVertex fround extruded fp64 s) = st_getHeightCalls s"
  by (simp_all add: popStartVertex_def Let_def split: option.split)

lemma visitVertex_positions:
  "st_positions (visitVertex fround extruded fp64 height vertex k s) =
     write_seq (st_positions s) (st_i s) (position_of fround height vertex)"
  "st_i (visitVertex fround extruded fp64 height vertex k s) =
     st_i s + length (position_of fround height vertex)"
  "st_getHeightCalls (visitVertex fround extruded fp64 height vertex k s) = st_getHeightCalls s"
  by (simp_all add: visitVertex_def Let_def popStartVertex_positions position_of_def)

lemma concat_map_enumerate_const:
  "concat (map (\<lambda>(i, x). f x) (enumerate k xs)) = concat (map f xs)"
  by (induction xs arbitrary: k) simp_all

lemma forEachVertex_positions:
  "st_positions (forEachVertex polygon (visitVertex fround extruded fp64 height) s) =
     write_seq (st_positions s) (st_i s)
       (concat (map (position_of fround height) (vertices_of polygon)))"
  "st_i (forEachVertex polygon (visitVertex fround extruded fp64 height) s) =
     st_i s + length (concat (map (position_of fround height) (vertices_of polygon)))"
proof -
  let ?visit = "visitVertex fround extruded fp64 height"
  have ring: "st_positions (forEach_from ?visit k r u) =
        write_seq (st_positions u) (st_i u) (concat (map (position_of fround height) r)) \<and>
      st_i (forEach_from ?visit k r u) =
        st_i u + length (concat (map (position_of fround height) r))" for k r u
    using forEach_from_writes [of "\<lambda>s. True" ?visit st_positions st_i
        "\<lambda>v k. position_of fround height v" u k r]
    by (simp only: visitVertex_positions concat_map_enumerate_const simp_thms)
  have rings: "st_positions (forEach_from (\<lambda>simplePolygon k. forEach ?visit simplePolygon) k rs u) =
        write_seq (st_positions u) (st_i u)
          (concat (map (\<lambda>r. concat (map (position_of fround height) r)) rs)) \<and>
      st_i (forEach_from (\<lambda>simplePolygon k. forEach ?visit simplePolygon) k rs u) =
        st_i u + length (concat (map (\<lambda>r. concat (map (position_of fround height) r)) rs))"
    for k rs u
    using forEach_from_writes [of "\<lambda>s. True" "\<lambda>simplePolygon k. forEach ?visit simplePolygon"
        st_positions st_i "\<lambda>r k. concat (map (position_of fround height) r)" u k rs]
    by (simp only: forEach_def ring concat_map_enumerate_const simp_thms)
  have flat: "concat (map (\<lambda>r. concat (map (position_of fround height) r)) rs) =
      concat (map (position_of fround height) (concat rs))" for rs
    by (induction rs) simp_all
  show "st_positions (forEachVertex polygon ?visit s) =
     write_seq (st_positions s) (st_i s)
       (concat (map (position_of fround height) (vertices_of polygon)))"
    by (cases polygon) (simp_all add: vertices_of_def forEach_def ring rings flat)
  show "st_i (forEachVertex polygon ?visit s) =
     st_i s + length (concat (map (position_of fround height) (vertices_of polygon)))"
    by (cases polygon) (simp_all only: forEachVertex.simps rings_of.simps vertices_of_def
        forEach_def ring rings flat concat.simps append_Nil2)
qed

lemma forEachVertex_calls:
  "st_getHeightCalls (forEachVertex polygon (visitVertex fround extruded fp64 height) s) =
   st_getHeightCalls s"
proof -
  let ?visit = "visitVertex fround extruded fp64 height"
  have ring: "st_getHeightCalls (forEach_from ?visit k r u) = st_getHeightCalls s"
    if "st_getHeightCalls u = st_getHeightCalls s" for k r u
    using that by (rule forEach_from_preserves [rotated]) (simp add: visitVertex_positions)
  show ?thesis
  proof (cases polygon)
    case (Simple r)
    then show ?thesis by (simp add: forEach_def ring)
  next
    case (Complex rs)
    have "st_getHeightCalls (forEach_from (\<lambda>simplePolygon k. forEach ?visit simplePolygon)
            0 rs s) = st_getHeightCalls s"
      by (rule forEach_from_preserves
            [where P = "\<lambda>u. st_getHeightCalls u = st_getHeightCalls s"])
        (simp_all add: forEach_def ring)
    with Complex show ?thesis by (simp add: forEach_def)
  qed
qed

lemma updatePositions_buffers_position_step:
  "updatePositions_buffers fround pos low nxt nextLow ps getHeight extruded fp64 =
     popStartVertex fround extruded fp64
       (forEach_from (position_step fround getHeight extruded fp64) 0 ps
          \<lparr>st_positions = pos, st_positions64xyLow = low,
           st_nextPositions = nxt, st_nextPositions64xyLow = nextLow,
           st_i = 0, st_j = 0, st_nextI = 0, st_nextJ = 0,
           st_startVertex = None, st_getHeightCalls = []\<rparr>)"
  by (simp add: updatePositions_buffers_def forEach_def position_step_def)

lemma position_step_positions:
  "st_positions (position_step fround getHeight extruded fp64 p k s) =
     write_seq (st_positions s) (st_i s) (position_block fround getHeight extruded p k)"
  "st_i (position_step fround getHeight extruded fp64 p k s) =
     st_i s + length (position_block fround getHeight extruded p k)"
  by (simp_all add: position_step_def position_block_def height_of_def forEachVertex_positions)

lemma position_step_calls:
  "st_getHeightCalls (position_step fround getHeight True fp64 p k s) = st_getHeightCalls s @ [k]"
  "st_getHeightCalls (position_step fround getHeight False fp64 p k s) = st_getHeightCalls s"
  by (simp_all add: position_step_def forEachVertex_calls)

lemma updatePositions_buffers_calls:
  "st_getHeightCalls (updatePositions_buffers fround pos low nxt nextLow ps getHeight True fp64) =
     [0..<length ps]"
  "st_getHeightCalls (updatePositions_buffers fround pos low nxt nextLow ps getHeight False fp64) =
     []"
proof -
  show "st_getHeightCalls
      (updatePositions_buffers fround pos low nxt nextLow ps getHeight True fp64) = [0..<length ps]"
    unfolding updatePositions_buffers_position_step popStartVertex_positions
    by (subst forEach_from_calls [where calls = st_getHeightCalls])
      (simp_all add: position_step_calls)
  show "st_getHeightCalls
      (updatePositions_buffers fround pos low nxt nextLow ps getHeight False fp64) = []"
    unfolding updatePositions_buffers_position_step popStartVertex_positions
    by (rule forEach_from_preserves [where P = "\<lambda>u. st_getHeightCalls u = []"])
      (simp_all add: position_step_calls)
qed

lemma updatePositions_buffers_positions:
  assumes "length pos = getPointCount ps * 3"
  shows "st_positions (updatePositions_buffers fround pos low nxt nextLow ps getHeight extruded fp64) =
     concat (map (\<lambda>(i, v). position_of fround (height_of extruded getHeight i) v) (vertex_slots ps))"
proof -
  let ?init = "\<lparr>st_positions = pos, st_positions64xyLow = low,
           st_nextPositions = nxt, st_nextPositions64xyLow = nextLow,
           st_i = 0, st_j = 0, st_nextI = 0, st_nextJ = 0,
           st_startVertex = None, st_getHeightCalls = []\<rparr>"
  let ?ws = "concat (map (\<lambda>(i, v). position_of fround (height_of extruded getHeight i) v)
      (vertex_slots ps))"
  have ws: "concat (map (\<lambda>(i, p). position_block fround getHeight extruded p i) (enumerate 0 ps)) = ?ws"
    unfolding position_block_def vertex_slots_def by (rule concat_blocks_vertex_slots)
  have "length ?ws = 3 * length (vertex_slots ps)"
    by (intro length_concat_uniform) auto
  with assms have whole: "write_seq pos 0 ?ws = ?ws"
    by (intro write_seq_whole) (simp add: length_vertex_slots)
  have "st_positions (forEach_from (position_step fround getHeight extruded fp64) 0 ps ?init) =
      write_seq pos 0 ?ws"
    using forEach_from_writes [of "\<lambda>s. True" "position_step fround getHeight extruded fp64"
        st_positions st_i "position_block fround getHeight extruded" ?init 0 ps]
    by (simp add: position_step_positions ws)
  then show ?thesis
    by (simp add: updatePositions_buffers_position_step popStartVertex_positions whole)
qed

lemma updatePositions_buffers_positions_slot:
  assumes "length pos = getPointCount ps * 3"
    and "i < length ps" and "k < Polygon_getVertexCount (ps ! i)"
  shows "slot 3 (st_positions
           (updatePositions_buffers fround pos low nxt nextLow ps getHeight extruded fp64))
           (getPolygonOffsets ps ! i + k) =
         position_of fround (height_of extruded getHeight i) (vertices_of (ps ! i) ! k)"
proof -
  have "slot 3 (concat (map (\<lambda>(i, v). position_of fround (height_of extruded getHeight i) v)
            (vertex_slots ps))) (getPolygonOffsets ps ! i + k) =
        (\<lambda>(i, v). position_of fround (height_of extruded getHeight i) v)
          (vertex_slots ps ! (getPolygonOffsets ps ! i + k))"
    by (intro slot_concat_uniform vertex_slots_nth(2) [OF assms(2,3)]) auto
  then show ?thesis
    by (simp add: updatePositions_buffers_positions [OF assms(1)]
        vertex_slots_nth(1) [OF assms(2,3)])
qed

lemma positions_buffer_length:
  "consistent t \<Longrightarrow>
   length (or_new (positions (attributes t)) (pointCount t * 3)) = getPointCount (polygons t) * 3"
  "consistent t \<Longrightarrow>
   length (or_new (nextPositions (attributes t)) (pointCount t * 3)) = getPointCount (polygons t) * 3"
  by (auto simp: consistent_def or_new_def split: option.splits)

lemma updatePositions_fields:
  "snd (updatePositions fround t fp64 extruded getHeight) =
     st_getHeightCalls (updatePositions_buffers fround
       (or_new (positions (attributes t)) (pointCount t * 3))
       (case (if fp64 then Some (or_new (positions64xyLow (attributes t)) (pointCount t * 2))
              else positions64xyLow (attributes t)) of Some b \<Rightarrow> b | None \<Rightarrow> [])
       (or_new (nextPositions (attributes t)) (pointCount t * 3))
       (case (if fp64 then Some (or_new (nextPositions64xyLow (attributes t)) (pointCount t * 2))
              else nextPositions64xyLow (attributes t)) of Some b \<Rightarrow> b | None \<Rightarrow> [])
       (polygons t) getHeight extruded fp64)"
  "PolygonTesselator_positions (fst (updatePositions fround t fp64 extruded getHeight)) =
     Some (st_positions (updatePositions_buffers fround
       (or_new (positions (attributes t)) (pointCount t * 3))
       (case (if fp64 then Some (or_new (positions64xyLow (attributes t)) (pointCount t * 2))
              else positions64xyLow (attributes t)) of Some b \<Rightarrow> b | None \<Rightarrow> [])
       (or_new (nextPositions (attributes t)) (pointCount t * 3))
       (case (if fp64 then Some (or_new (nextPositions64xyLow (attributes t)) (pointCount t * 2))
              else nextPositions64xyLow (attributes t)) of Some b \<Rightarrow> b | None \<Rightarrow> [])
       (polygons t) getHeight extruded fp64))"
  "PolygonTesselator_nextPositions (fst (updatePositions fround t fp64 extruded getHeight)) =
     Some (st_nextPositions (updatePositions_buffers fround
       (or_new (positions (attributes t)) (pointCount t * 3))
       (case (if fp64 then Some (or_new (positions64xyLow (attributes t)) (pointCount t * 2))
              else positions64xyLow (attributes t)) of Some b \<Rightarrow> b | None \<Rightarrow> [])
       (or_new (nextPositions (attributes t)) (pointCount t * 3))
       (case (if fp64 then Some (or_new (nextPositions64xyLow (attributes t)) (pointCount t * 2))
              else nextPositions64xyLow (attributes t)) of Some b \<Rightarrow> b | None \<Rightarrow> [])
       (polygons t) getHeight extruded fp64))"
  by (simp_all add: updatePositions_def Let_def PolygonTesselator_positions_def
      PolygonTesselator_nextPositions_def)

text \<open>
  C6: with extrusion on, \<open>getHeight\<close> is called once per polygon, in order, and vertex
  \<open>k\<close> of polygon \<open>i\<close>, \<open>(x, y, z)\<close>, is stored at its slot as \<open>x\<close>, \<open>y\<close> and
  \<open>z + getHeight i\<close>, a missing \<open>z\<close> read as 0 (each value rounded as a \<open>Float32Array\<close>
  rounds it). With extrusion off \<open>getHeight\<close> is not called and the height is 0.
\<close>

theorem height_once_per_polygon:
  assumes "consistent t"
    and "i < length (polygons t)" and "k < Polygon_getVertexCount (polygons t ! i)"
    and "vertices_of (polygons t ! i) ! k = (x, y, z)"
  shows "snd (updatePositions fround t fp64 True getHeight) = [0..<length (polygons t)] \<and>
         snd (updatePositions fround t fp64 False getHeight) = [] \<and>
         (\<exists>b. PolygonTesselator_positions (fst (updatePositions fround t fp64 True getHeight)) = Some b \<and>
              slot 3 b (getPolygonOffsets (polygons t) ! i + k) =
                [fround x, fround y,
                 fround ((case z of Some v \<Rightarrow> v | None \<Rightarrow> 0) + getHeight i)]) \<and>
         (\<exists>b. PolygonTesselator_positions (fst (updatePositions fround t fp64 False getHeight)) = Some b \<and>
              slot 3 b (getPolygonOffsets (polygons t) ! i + k) =
                [fround x, fround y, fround ((case z of Some v \<Rightarrow> v | None \<Rightarrow> 0) + 0)])"
proof -
  note len = positions_buffer_length(1) [OF assms(1)]
  note sl = updatePositions_buffers_positions_slot [OF len assms(2,3)]
  show ?thesis
    unfolding updatePositions_fields
    by (simp add: updatePositions_buffers_calls sl assms(4) position_of_def height_of_def)
qed

theorem height_once_per_polygon_witness:
  "snd (updatePositions (\<lambda>x. 4 * (x div 4))
     \<lparr>polygons = [Complex [[(0, 0, None), (1, 0, None), (0::int, 1, None)]],
                  Complex [[(0, 0, None), (4, 0, None), (4, 4, None), (0, 4, None)],
                           [(1, 1, None), (2, 1, Some 7), (1, 2, None)]]],
      pointCount = 10,
      attributes = \<lparr>positions = None, nextPositions = None, positions64xyLow = None,
        nextPositions64xyLow = None, colors = None, pickingColors = []\<rparr>\<rparr>
     False True (\<lambda>i. 100 * int i)) = [0, 1] \<and>
   slot 3 (the (PolygonTesselator_positions (fst (updatePositions (\<lambda>x. 4 * (x div 4))
     \<lparr>polygons = [Complex [[(0, 0, None), (1, 0, None), (0::int, 1, None)]],
                  Complex [[(0, 0, None), (4, 0, None), (4, 4, None), (0, 4, None)],
                           [(1, 1, None), (2, 1, Some 7), (1, 2, None)]]],
      pointCount = 10,
      attributes = \<lparr>positions = None, nextPositions = None, positions64xyLow = None,
        nextPositions64xyLow = None, colors = None, pickingColors = []\<rparr>\<rparr>
     False True (\<lambda>i. 100 * int i)))))
     (getPolygonOffsets
        [Complex [[(0, 0, None), (1, 0, None), (0::int, 1, None)]],
         Complex [[(0, 0, None), (4, 0, None), (4, 4, None), (0, 4, None)],
                  [(1, 1, None), (2, 1, Some 7), (1, 2, None)]]] ! 1 + 5) = [0, 0, 104]"
proof -
  let ?t = "\<lparr>polygons = [Complex [[(0, 0, None), (1, 0, None), (0::int, 1, None)]],
                  Complex [[(0, 0, None), (4, 0, None), (4, 4, None), (0, 4, None)],
                           [(1, 1, None), (2, 1, Some 7), (1, 2, None)]]],
      pointCount = 10,
      attributes = \<lparr>positions = None, nextPositions = None, positions64xyLow = None,
        nextPositions64xyLow = None, colors = None, pickingColors = []\<rparr>\<rparr>"
  have c: "consistent ?t"
    by (simp add: consistent_def getPointCount_def)
  have i: "1 < length (polygons ?t)" and k: "5 < Polygon_getVertexCount (polygons ?t ! 1)"
    and v: "vertices_of (polygons ?t ! 1) ! 5 = (2, 1, Some 7)"
    by (simp_all add: vertices_of_def)
  from height_once_per_polygon [OF c i k v, of "\<lambda>x. 4 * (x div 4)" False "\<lambda>i. 100 * int i"]
  show ?thesis
    by auto
qed

section \<open>The next-position buffer\<close>

lemma popStartVertex_next:
  "st_nextPositions (popStartVertex fround True fp64 s) = next_done fround s"
  "st_nextI (popStartVertex fround True fp64 s) = next_ix fround s"
  "st_startVertex (popStartVertex fround True fp64 s) = None"
  by (simp_all add: popStartVertex_def next_done_def next_ix_def pending_def Let_def
      split: option.split)

lemma visitVertex_first:
  "st_nextPositions (visitVertex fround True fp64 height vertex 0 s) = next_done fround s"
  "st_nextI (visitVertex fround True fp64 height vertex 0 s) = next_ix fround s"
  "pending fround (visitVertex fround True fp64 height vertex 0 s) =
     position_of fround height vertex"
proof -
  let ?s2 = "\<lambda>u::'a position_state.
      if fp64 then
        u\<lparr>st_positions64xyLow :=
             write_seq (st_positions64xyLow u) (st_j u)
               [fround (fst vertex - fround (fst vertex)),
                fround (fst (snd vertex) - fround (fst (snd vertex)))],
          st_j := st_j u + 2\<rparr>
      else u"
  have keep: "next_done fround (?s2 (u\<lparr>st_positions := a, st_i := b\<rparr>)) = next_done fround u"
    "next_ix fround (?s2 (u\<lparr>st_positions := a, st_i := b\<rparr>)) = next_ix fround u" for u a b
    by (simp_all add: next_done_def next_ix_def pending_def)
  show "st_nextPositions (visitVertex fround True fp64 height vertex 0 s) = next_done fround s"
    by (simp add: visitVertex_def Let_def popStartVertex_next keep)
  show "st_nextI (visitVertex fround True fp64 height vertex 0 s) = next_ix fround s"
    by (simp add: visitVertex_def Let_def popStartVertex_next keep)
  show "pending fround (visitVertex fround True fp64 height vertex 0 s) =
     position_of fround height vertex"
    by (simp add: visitVertex_def Let_def pending_def position_of_def)
qed

lemma visitVertex_later:
  assumes "0 < k"
  shows "st_nextPositions (visitVertex fround True fp64 height vertex k s) =
           write_seq (st_nextPositions s) (st_nextI s) (position_of fround height vertex)"
    and "st_nextI (visitVertex fround True fp64 height vertex k s) = st_nextI s + 3"
    and "st_startVertex (visitVertex fround True fp64 height vertex k s) = st_startVertex s"
  using assms by (simp_all add: visitVertex_def Let_def position_of_def)

lemma ring_tail:
  assumes "0 < k"
  shows "st_nextPositions (forEach_from (visitVertex fround True fp64 height) k vs s) =
           write_seq (st_nextPositions s) (st_nextI s)
             (concat (map (position_of fround height) vs)) \<and>
         st_nextI (forEach_from (visitVertex fround True fp64 height) k vs s) =
           st_nextI s + 3 * length vs \<and>
         st_startVertex (forEach_from (visitVertex fround True fp64 height) k vs s) =
           st_startVertex s"
  using assms
proof (induction vs arbitrary: k s)
  case Nil
  then show ?case by simp
next
  case (Cons v vs)
  from Cons.prems have "0 < Suc k" by simp
  from Cons.IH [OF this, of "visitVertex fround True fp64 height v k s"] Cons.prems
  show ?case
    by (simp add: visitVertex_later write_seq_append)
qed

lemma ring_next:
  "next_done fround (forEach_from (visitVertex fround True fp64 height) 0 ring s) =
     write_seq (next_done fround s) (next_ix fround s)
       (concat (map (position_of fround height) (rotate1 ring)))"
  "next_ix fround (forEach_from (visitVertex fround True fp64 height) 0 ring s) =
     next_ix fround s + length (concat (map (position_of fround height) (rotate1 ring)))"
proof -
  have len: "length (concat (map (position_of fround height) vs)) = 3 * length vs" for vs
    by (intro length_concat_uniform) simp
  have both: "next_done fround (forEach_from (visitVertex fround True fp64 height) 0 ring s) =
     write_seq (next_done fround s) (next_ix fround s)
       (concat (map (position_of fround height) (rotate1 ring))) \<and>
    next_ix fround (forEach_from (visitVertex fround True fp64 height) 0 ring s) =
     next_ix fround s + length (concat (map (position_of fround height) (rotate1 ring)))"
  proof (cases ring)
    case Nil
    then show ?thesis by simp
  next
    case (Cons v vs)
    let ?s1 = "visitVertex fround True fp64 height v 0 s"
    let ?s2 = "forEach_from (visitVertex fround True fp64 height) (Suc 0) vs ?s1"
    have tail: "st_nextPositions ?s2 =
        write_seq (next_done fround s) (next_ix fround s)
          (concat (map (position_of fround height) vs))"
      "st_nextI ?s2 = next_ix fround s + 3 * length vs"
      "pending fround ?s2 = position_of fround height v"
      using ring_tail [of "Suc 0" fround fp64 height vs ?s1] visitVertex_first(3) [of fround fp64 height v s]
      by (simp_all add: visitVertex_first pending_def)
    have "next_done fround ?s2 =
        write_seq (next_done fround s) (next_ix fround s)
          (concat (map (position_of fround height) vs) @ position_of fround height v)"
      by (simp add: next_done_def [of fround ?s2] tail write_seq_append len)
    moreover have "next_ix fround ?s2 = next_ix fround s + 3 * length (v # vs)"
      by (simp add: next_ix_def [of fround ?s2] tail)
    ultimately show ?thesis
      using Cons by (simp add: len)
  qed
  from both show "next_done fround (forEach_from (visitVertex fround True fp64 height) 0 ring s) =
     write_seq (next_done fround s) (next_ix fround s)
       (concat (map (position_of fround height) (rotate1 ring)))"
    by (rule conjunct1)
  from both show "next_ix fround (forEach_from (visitVertex fround True fp64 height) 0 ring s) =
     next_ix fround s + length (concat (map (position_of fround height) (rotate1 ring)))"
    by (rule conjunct2)
qed

lemma length_next_vertices: "length (next_vertices p) = Polygon_getVertexCount p"
  by (simp add: next_vertices_def vertexCount_vertices vertices_of_def length_concat o_def)

lemma next_state_calls:
  "next_done fround (s\<lparr>st_getHeightCalls := c\<rparr>) = next_done fround s"
  "next_ix fround (s\<lparr>st_getHeightCalls := c\<rparr>) = next_ix fround s"
  by (simp_all add: next_done_def next_ix_def pending_def)

lemma forEachVertex_next:
  "next_done fround (forEachVertex polygon (visitVertex fround True fp64 height) s) =
     write_seq (next_done fround s) (next_ix fround s)
       (concat (map (position_of fround height) (next_vertices polygon)))"
  "next_ix fround (forEachVertex polygon (visitVertex fround True fp64 height) s) =
     next_ix fround s + length (concat (map (position_of fround height) (next_vertices polygon)))"
proof -
  let ?visit = "visitVertex fround True fp64 height"
  let ?blk = "\<lambda>ring. concat (map (position_of fround height) (rotate1 ring))"
  have rings: "next_done fround (forEach_from (\<lambda>simplePolygon k. forEach ?visit simplePolygon) k rs u) =
        write_seq (next_done fround u) (next_ix fround u) (concat (map ?blk rs)) \<and>
      next_ix fround (forEach_from (\<lambda>simplePolygon k. forEach ?visit simplePolygon) k rs u) =
        next_ix fround u + length (concat (map ?blk rs))"
    for k rs u
    using forEach_from_writes [of "\<lambda>s. True" "\<lambda>simplePolygon k. forEach ?visit simplePolygon"
        "next_done fround" "next_ix fround" "\<lambda>r k. ?blk r" u k rs]
    by (simp only: forEach_def ring_next concat_map_enumerate_const simp_thms)
  have flat: "concat (map ?blk rs) =
      concat (map (position_of fround height) (concat (map rotate1 rs)))" for rs
    by (induction rs) simp_all
  have one: "forEachVertex polygon ?visit s =
      forEach_from (\<lambda>simplePolygon k. forEach ?visit simplePolygon) 0 (rings_of polygon) s"
    by (cases polygon) (simp_all add: forEach_def)
  show "next_done fround (forEachVertex polygon ?visit s) =
     write_seq (next_done fround s) (next_ix fround s)
       (concat (map (position_of fround height) (next_vertices polygon)))"
    by (simp only: one rings flat next_vertices_def)
  show "next_ix fround (forEachVertex polygon ?visit s) =
     next_ix fround s + length (concat (map (position_of fround height) (next_vertices polygon)))"
    by (simp only: one rings flat next_vertices_def)
qed

lemma position_step_next:
  "next_done fround (position_step fround getHeight True fp64 p k s) =
     write_seq (next_done fround s) (next_ix fround s) (next_block fround getHeight p k)"
  "next_ix fround (position_step fround getHeight True fp64 p k s) =
     next_ix fround s + length (next_block fround getHeight p k)"
  by (simp_all add: position_step_def next_block_def forEachVertex_next next_state_calls)

lemma concat_blocks_slots:
  "concat (map (\<lambda>(i, p). concat (map (f i) (g p))) (enumerate k ps)) =
   concat (map (\<lambda>(i, v). f i v)
     (concat (map (\<lambda>(i, p). map (Pair i) (g p)) (enumerate k ps))))"
  by (induction ps arbitrary: k) (simp_all add: o_def)

lemma next_block_lengths:
  "map length (map (\<lambda>(i, p). map (Pair i) (next_vertices p)) (enumerate k ps)) =
   map Polygon_getVertexCount ps"
  by (induction ps arbitrary: k) (simp_all add: length_next_vertices)

lemma length_next_slots: "length (next_slots ps) = getPointCount ps"
  by (simp only: next_slots_def length_concat next_block_lengths getPointCount_sum)

lemma next_slots_nth:
  assumes "i < length ps" and "m < Polygon_getVertexCount (ps ! i)"
  shows "next_slots ps ! (getPolygonOffsets ps ! i + m) = (i, next_vertices (ps ! i) ! m)"
    and "getPolygonOffsets ps ! i + m < length (next_slots ps)"
proof -
  let ?bs = "map (\<lambda>(i, p). map (Pair i) (next_vertices p)) (enumerate 0 ps)"
  have lens: "map length ?bs = map Polygon_getVertexCount ps"
    by (rule next_block_lengths)
  have bi: "?bs ! i = map (Pair i) (next_vertices (ps ! i))"
    using assms by (simp add: nth_enumerate_eq)
  have off: "getPolygonOffsets ps ! i = sum_list (map length (take i ?bs))"
    using assms by (simp only: take_map [symmetric] lens) (simp add: getPolygonOffsets_nth take_map)
  have "concat ?bs ! (sum_list (map length (take i ?bs)) + m) = ?bs ! i ! m"
    using assms by (intro nth_concat_block) (simp_all add: bi length_next_vertices)
  then show "next_slots ps ! (getPolygonOffsets ps ! i + m) = (i, next_vertices (ps ! i) ! m)"
    using assms by (simp add: next_slots_def off bi length_next_vertices)
  have "getPolygonOffsets ps ! i + m < getPolygonOffsets ps ! Suc i"
    using assms by (simp add: getPolygonOffsets_nth take_Suc_conv_app_nth)
  moreover have "getPolygonOffsets ps ! Suc i \<le> getPolygonOffsets ps ! length ps"
    using assms getPolygonOffsets_sorted [of ps]
    by (intro sorted_nth_mono) (simp_all add: length_getPolygonOffsets)
  ultimately show "getPolygonOffsets ps ! i + m < length (next_slots ps)"
    by (simp add: length_next_slots getPolygonOffsets_nth getPointCount_sum)
qed

lemma updatePositions_buffers_nextPositions:
  assumes "length nxt = getPointCount ps * 3"
  shows "st_nextPositions (updatePositions_buffers fround pos low nxt nextLow ps getHeight True fp64) =
     concat (map (\<lambda>(i, v). position_of fround (getHeight i) v) (next_slots ps))"
proof -
  let ?init = "\<lparr>st_positions = pos, st_positions64xyLow = low,
           st_nextPositions = nxt, st_nextPositions64xyLow = nextLow,
           st_i = 0, st_j = 0, st_nextI = 0, st_nextJ = 0,
           st_startVertex = None, st_getHeightCalls = []\<rparr>"
  let ?ws = "concat (map (\<lambda>(i, v). position_of fround (getHeight i) v) (next_slots ps))"
  have ws: "concat (map (\<lambda>(i, p). next_block fround getHeight p i) (enumerate 0 ps)) = ?ws"
    unfolding next_block_def next_slots_def by (rule concat_blocks_slots)
  have "length ?ws = 3 * length (next_slots ps)"
    by (intro length_concat_uniform) auto
  with assms have whole: "write_seq nxt 0 ?ws = ?ws"
    by (intro write_seq_whole) (simp add: length_next_slots)
  have init: "next_done fround ?init = nxt" "next_ix fround ?init = 0"
    by (simp_all add: next_done_def next_ix_def pending_def)
  have "next_done fround (forEach_from (position_step fround getHeight True fp64) 0 ps ?init) =
      write_seq nxt 0 ?ws"
    using forEach_from_writes [of "\<lambda>s. True" "position_step fround getHeight True fp64"
        "next_done fround" "next_ix fround" "next_block fround getHeight" ?init 0 ps]
    by (simp add: position_step_next ws init)
  then show ?thesis
    by (simp add: updatePositions_buffers_position_step popStartVertex_next whole)
qed

lemma ring_vertices_nth:
  assumes "r < length (rings_of p)" and "j < length (rings_of p ! r)"
  shows "vertices_of p ! (sum_list (map length (take r (rings_of p))) + j) = rings_of p ! r ! j"
    and "next_vertices p ! (sum_list (map length (take r (rings_of p))) + j) =
           rings_of p ! r ! ((j + 1) mod length (rings_of p ! r))"
    and "sum_list (map length (take r (rings_of p))) + j < Polygon_getVertexCount p"
proof -
  let ?rs = "rings_of p"
  show "vertices_of p ! (sum_list (map length (take r ?rs)) + j) = ?rs ! r ! j"
    unfolding vertices_of_def using assms by (rule nth_concat_block)
  have "map length (take r (map rotate1 ?rs)) = map length (take r ?rs)"
    by (simp add: take_map)
  moreover have "concat (map rotate1 ?rs) !
      (sum_list (map length (take r (map rotate1 ?rs))) + j) = map rotate1 ?rs ! r ! j"
    using assms by (intro nth_concat_block) simp_all
  ultimately show "next_vertices p ! (sum_list (map length (take r ?rs)) + j) =
           ?rs ! r ! ((j + 1) mod length (?rs ! r))"
    using assms by (simp add: next_vertices_def nth_rotate1)
  have "sum_list (map length ?rs) =
      sum_list (map length (take r ?rs)) + sum_list (map length (drop r ?rs))"
    by (metis append_take_drop_id map_append sum_list_append)
  moreover have "drop r ?rs = ?rs ! r # drop (Suc r) ?rs"
    using assms(1) by (simp add: Cons_nth_drop_Suc)
  ultimately show "sum_list (map length (take r ?rs)) + j < Polygon_getVertexCount p"
    using assms(2) by (simp add: vertexCount_vertices vertices_of_def length_concat)
qed

text \<open>
  C7: after \<open>updatePositions\<close> with extrusion on, for vertex \<open>j\<close> of ring \<open>r\<close> of polygon
  \<open>i\<close> the entry of \<open>nextPositions\<close> at the slot of that vertex is the position of the
  next vertex of the same ring, the first one after the last: it equals the entry of
  \<open>positions\<close> at the slot of that next vertex. In particular the entry of
  \<open>nextPositions\<close> at the slot of the last vertex of the ring is the entry of
  \<open>positions\<close> at the slot of its first vertex.
\<close>

theorem next_positions_wrap:
  fixes t :: "'n::{zero,plus,minus} PolygonTesselator"
  defines "ring \<equiv> \<lambda>t i r. rings_of (polygons t ! i) ! r"
    and "start \<equiv> \<lambda>t i r. getPolygonOffsets (polygons t) ! i +
                   sum_list (map length (take r (rings_of (polygons t ! i))))"
  assumes "consistent t"
    and "i < length (polygons t)" and "r < length (rings_of (polygons t ! i))"
    and "j < length (rings_of (polygons t ! i) ! r)"
  shows "\<exists>p n.
     PolygonTesselator_positions (fst (updatePositions fround t fp64 True getHeight)) = Some p \<and>
     PolygonTesselator_nextPositions (fst (updatePositions fround t fp64 True getHeight)) = Some n \<and>
     slot 3 n (start t i r + j) =
       position_of fround (getHeight i) (ring t i r ! ((j + 1) mod length (ring t i r))) \<and>
     slot 3 n (start t i r + j) = slot 3 p (start t i r + (j + 1) mod length (ring t i r)) \<and>
     slot 3 n (start t i r + (length (ring t i r) - 1)) = slot 3 p (start t i r)"
proof -
  let ?ps = "polygons t"
  let ?rs = "rings_of (?ps ! i)"
  let ?len = "length (?rs ! r)"
  let ?rstart = "sum_list (map length (take r ?rs))"
  let ?s = "updatePositions_buffers fround
       (or_new (positions (attributes t)) (pointCount t * 3))
       (case (if fp64 then Some (or_new (positions64xyLow (attributes t)) (pointCount t * 2))
              else positions64xyLow (attributes t)) of Some b \<Rightarrow> b | None \<Rightarrow> [])
       (or_new (nextPositions (attributes t)) (pointCount t * 3))
       (case (if fp64 then Some (or_new (nextPositions64xyLow (attributes t)) (pointCount t * 2))
              else nextPositions64xyLow (attributes t)) of Some b \<Rightarrow> b | None \<Rightarrow> [])
       ?ps getHeight True fp64"
  let ?F = "\<lambda>(i, v). position_of fround (getHeight i) v"
  note lens = positions_buffer_length [OF assms(3)]
  have P: "st_positions ?s = concat (map ?F (vertex_slots ?ps))"
    using updatePositions_buffers_positions [OF lens(1), where extruded = True]
    by (simp add: height_of_def)
  have N: "st_nextPositions ?s = concat (map ?F (next_slots ?ps))"
    by (rule updatePositions_buffers_nextPositions [OF lens(2)])
  have pos: "slot 3 (st_positions ?s) (getPolygonOffsets ?ps ! i + (?rstart + j')) =
        position_of fround (getHeight i) (?rs ! r ! j')" if "j' < ?len" for j'
  proof -
    note rv = ring_vertices_nth [OF assms(5) that]
    note vs = vertex_slots_nth [OF assms(4) rv(3)]
    have "slot 3 (concat (map ?F (vertex_slots ?ps))) (getPolygonOffsets ?ps ! i + (?rstart + j')) =
        ?F (vertex_slots ?ps ! (getPolygonOffsets ?ps ! i + (?rstart + j')))"
      by (intro slot_concat_uniform vs(2)) auto
    then show ?thesis
      by (simp add: P vs(1) rv(1))
  qed
  have nxt: "slot 3 (st_nextPositions ?s) (getPolygonOffsets ?ps ! i + (?rstart + j')) =
        position_of fround (getHeight i) (?rs ! r ! ((j' + 1) mod ?len))" if "j' < ?len" for j'
  proof -
    note rv = ring_vertices_nth [OF assms(5) that]
    note ns = next_slots_nth [OF assms(4) rv(3)]
    have "slot 3 (concat (map ?F (next_slots ?ps))) (getPolygonOffsets ?ps ! i + (?rstart + j')) =
        ?F (next_slots ?ps ! (getPolygonOffsets ?ps ! i + (?rstart + j')))"
      by (intro slot_concat_uniform ns(2)) auto
    then show ?thesis
      by (simp add: N ns(1) rv(2))
  qed
  from assms(6) have z: "0 < ?len"
    by (rule gr_implies_not0 [THEN neq0_conv [THEN iffD1]])
  then have m: "(j + 1) mod ?len < ?len" and l: "?len - 1 < ?len"
    by (rule mod_less_divisor, linarith)
  have wrap: "(?len - 1 + 1) mod ?len = 0"
    using z by simp
  show ?thesis
    unfolding updatePositions_fields ring_def start_def
    using nxt [OF assms(6)] pos [OF m] nxt [OF l] pos [OF z] wrap
    by (simp add: add.assoc)
qed

theorem next_positions_wrap_witness:
  "slot 3 (the (PolygonTesselator_nextPositions (fst (updatePositions (\<lambda>x. 4 * (x div 4))
     \<lparr>polygons = [Complex [[(0, 0, None), (1, 0, None), (0::int, 1, None)]],
                  Complex [[(0, 0, None), (4, 0, None), (4, 4, None), (0, 4, None)],
                           [(1, 1, None), (2, 1, Some 7), (1, 2, None)]]],
      pointCount = 10,
      attributes = \<lparr>positions = None, nextPositions = None, positions64xyLow = None,
        nextPositions64xyLow = None, colors = None, pickingColors = []\<rparr>\<rparr>
     False True (\<lambda>i. 100 * int i)))))
     (getPolygonOffsets
        [Complex [[(0, 0, None), (1, 0, None), (0::int, 1, None)]],
         Complex [[(0, 0, None), (4, 0, None), (4, 4, None), (0, 4, None)],
                  [(1, 1, None), (2, 1, Some 7), (1, 2, None)]]] ! 1 + 6) = [0, 0, 100] \<and>
   slot 3 (the (PolygonTesselator_nextPositions (fst (updatePositions (\<lambda>x. 4 * (x div 4))
     \<lparr>polygons = [Complex [[(0, 0, None), (1, 0, None), (0::int, 1, None)]],
                  Complex [[(0, 0, None), (4, 0, None), (4, 4, None), (0, 4, None)],
                           [(1, 1, None), (2, 1, Some 7), (1, 2, None)]]],
      pointCount = 10,
      attributes = \<lparr>positions = None, nextPositions = None, positions64xyLow = None,
        nextPositions64xyLow = None, colors = None, pickingColors = []\<rparr>\<rparr>
     False True (\<lambda>i. 100 * int i)))))
     (getPolygonOffsets
        [Complex [[(0, 0, None), (1, 0, None), (0::int, 1, None)]],
         Complex [[(0, 0, None), (4, 0, None), (4, 4, None), (0, 4, None)],
                  [(1, 1, None), (2, 1, Some 7), (1, 2, None)]]] ! 1 + 6) =
   slot 3 (the (PolygonTesselator_positions (fst (updatePositions (\<lambda>x. 4 * (x div 4))
     \<lparr>polygons = [Complex [[(0, 0, None), (1, 0, None), (0::int, 1, None)]],
                  Complex [[(0, 0, None), (4, 0, None), (4, 4, None), (0, 4, None)],
                           [(1, 1, None), (2, 1, Some 7), (1, 2, None)]]],
      pointCount = 10,
      attributes = \<lparr>positions = None, nextPositions = None, positions64xyLow = None,
        nextPositions64xyLow = None, colors = None, pickingColors = []\<rparr>\<rparr>
     False True (\<lambda>i. 100 * int i)))))
     (getPolygonOffsets
        [Complex [[(0, 0, None), (1, 0, None), (0::int, 1, None)]],
         Complex [[(0, 0, None), (4, 0, None), (4, 4, None), (0, 4, None)],
                  [(1, 1, None), (2, 1, Some 7), (1, 2, None)]]] ! 1 + 4)"
proof -
  let ?t = "\<lparr>polygons = [Complex [[(0, 0, None), (1, 0, None), (0::int, 1, None)]],
                  Complex [[(0, 0, None), (4, 0, None), (4, 4, None), (0, 4, None)],
                           [(1, 1, None), (2, 1, Some 7), (1, 2, None)]]],
      pointCount = 10,
      attributes = \<lparr>positions = None, nextPositions = None, positions64xyLow = None,
        nextPositions64xyLow = None, colors = None, pickingColors = []\<rparr>\<rparr>"
  have c: "consistent ?t"
    by (simp add: consistent_def getPointCount_def)
  have i: "1 < length (polygons ?t)" and r: "1 < length (rings_of (polygons ?t ! 1))"
    and j: "2 < length (rings_of (polygons ?t ! 1) ! 1)"
    by simp_all
  from next_positions_wrap [OF c i r j, of "\<lambda>x. 4 * (x div 4)" False "\<lambda>i. 100 * int i"]
  show ?thesis
    by (auto simp: position_of_def numeral_eq_Suc)
qed

section \<open>The low parts\<close>








section \<open>The index type\<close>





section \<open>The round trip of the low parts\<close>












end
